theory Spec2Isabelle
  imports Complex_Main
begin

section \<open>Cloud Racing: the simulation engine of src/App.js\<close>

text \<open>
  The game keeps its simulation in mutable refs (player, obstacles, score, spawn timers,
  pressed keys, pointer, difficulty) and two React flags (\<open>gameOver\<close>, \<open>gameState\<close>).
  Here they are the fields of one record that every operation takes and returns.
  In this record JavaScript numbers are modelled as real numbers: arithmetic is exact, and
  the special values NaN and Infinity do not exist. The order of the loop, the scoring, the
  removals and the phases are studied on this model. The collision test, the clamp of the
  player and the spawn thresholds depend on the rounding of a comparison or on a value
  that is not finite: for them the code is translated a second time, over IEEE 754
  doubles, in definitions that carry the suffix \<open>D\<close>.
  \<open>Math.random()\<close> is an argument: the function
  \<open>rnd\<close> gives the draws one call of \<open>update\<close> observes, in order. Rendering, audio
  playback and the frame clock (\<open>lastTimeRef\<close>) are not part of the state; the React
  state \<open>score\<close>, which is written but never read, is left out as well.
\<close>

subsection \<open>Constants (lines 3--9)\<close>

definition WIDTH :: real where "WIDTH = 800"
definition HEIGHT :: real where "HEIGHT = 500"
definition CLOUD_RADIUS :: real where "CLOUD_RADIUS = 20"
definition PLAYER_SPEED :: real where "PLAYER_SPEED = 260"
definition BASE_SCROLL_SPEED :: real where "BASE_SCROLL_SPEED = 200"

subsection \<open>Data\<close>

datatype otype = Asteroid | Alien

text \<open>
  An obstacle object. The fields \<open>type\<close>, \<open>x\<close> and \<open>y\<close> of the source are \<open>otype\<close>,
  \<open>ox\<close> and \<open>oy\<close>.
  \<open>wobblePhase\<close> and \<open>life\<close> exist on aliens only; the code reads them on aliens only,
  and an asteroid carries 0 in both.
\<close>

record obstacle =
  otype :: otype
  ox :: real
  oy :: real
  radius :: real
  speed :: real
  scored :: bool
  wobblePhase :: real
  life :: real

record player_t =
  px :: real
  py :: real

record pointer_t =
  active :: bool
  ptx :: real
  pty :: real

record timers_t =
  asteroidMs :: real
  alienMs :: real

datatype gameState = Menu | Playing

datatype difficulty = Easy | Medium | Hard

text \<open>The text \<open>Game over. Score n\<close> handed to the speech helper.\<close>

datatype utterance = GameOverScore int

text \<open>
  \<open>speakCalls\<close> records every call of \<open>speak\<close>, \<open>spoken\<close> the texts that pass its guard
  and reach the speech synthesiser; \<open>hasSpeechSynthesis\<close> says whether the browser has one.
\<close>

record state =
  player :: player_t
  keys :: "string set"
  pointer :: pointer_t
  spawnTimers :: timers_t
  obstacles :: "obstacle list"
  scoreRef :: real
  gameOver :: bool
  gameState :: gameState
  difficulty :: difficulty
  speechAllowed :: bool
  isMuted :: bool
  hasSpeechSynthesis :: bool
  speakCalls :: "utterance list"
  spoken :: "utterance list"

subsection \<open>Helpers (lines 11--17)\<close>

definition rand :: "real \<Rightarrow> real \<Rightarrow> real \<Rightarrow> real" where
  \<comment> \<open>\<open>u\<close> is the value \<open>Math.random()\<close> returns inside \<open>rand\<close>\<close>
  "rand u lo hi = u * (hi - lo) + lo"

definition length' :: "real \<Rightarrow> real \<Rightarrow> real" where
  \<comment> \<open>\<open>Math.hypot\<close>\<close>
  "length' a b = sqrt (a\<^sup>2 + b\<^sup>2)"

subsection \<open>restart, startGame, the difficulty buttons (lines 147--170, 523--531)\<close>

definition restart :: "state \<Rightarrow> state" where
  "restart s = s\<lparr>obstacles := [],
                 spawnTimers := \<lparr>asteroidMs = 0, alienMs = 0\<rparr>,
                 scoreRef := 0,
                 player := \<lparr>px = 120, py = HEIGHT / 2\<rparr>,
                 gameOver := False\<rparr>"

definition startGame :: "state \<Rightarrow> state" where
  "startGame s = (restart s)\<lparr>gameState := Playing\<rparr>"

definition setDifficulty :: "difficulty \<Rightarrow> state \<Rightarrow> state" where
  \<comment> \<open>the state setter of line 40, copied to \<open>difficultyRef\<close> by the effect of lines 128--130\<close>
  "setDifficulty d s = s\<lparr>difficulty := d\<rparr>"

definition clickDifficulty :: "difficulty \<Rightarrow> state \<Rightarrow> state" where
  \<comment> \<open>the three buttons are rendered inside \<open>gameState === 'menu' && (...)\<close>: in any
      other state there is no button, and nothing happens\<close>
  "clickDifficulty d s = (if gameState s = Menu then setDifficulty d s else s)"

subsection \<open>speak (lines 393--402)\<close>

definition speak :: "utterance \<Rightarrow> state \<Rightarrow> state" where
  "speak text s =
     (let s1 = s\<lparr>speakCalls := speakCalls s @ [text]\<rparr>
      in if \<not> speechAllowed s1 \<or> isMuted s1 then s1
         else if \<not> hasSpeechSynthesis s1 then s1
         else s1\<lparr>spoken := spoken s1 @ [text]\<rparr>)"

subsection \<open>update: the player (lines 173--196)\<close>

definition movePlayer :: "real \<Rightarrow> state \<Rightarrow> state" where
  "movePlayer dt s =
     (let vertical = (if ''arrowdown'' \<in> keys s \<or> ''s'' \<in> keys s then 1 else 0)
                   - (if ''arrowup'' \<in> keys s \<or> ''w'' \<in> keys s then 1 else (0::real));
          horizontal = (if ''arrowright'' \<in> keys s \<or> ''d'' \<in> keys s then 1 else 0)
                     - (if ''arrowleft'' \<in> keys s \<or> ''a'' \<in> keys s then 1 else (0::real));
          p1 = \<lparr>px = px (player s) + horizontal * PLAYER_SPEED * dt,
                py = py (player s) + vertical * PLAYER_SPEED * dt\<rparr>;
          p2 = (if active (pointer s) then
                  (let dx = ptx (pointer s) - px p1;
                       dy = pty (pointer s) - py p1;
                       dist = sqrt (dx\<^sup>2 + dy\<^sup>2);
                       deadZone = 6
                   in if dist > deadZone then
                        (let ux = dx / dist; uy = dy / dist
                         in \<lparr>px = px p1 + ux * PLAYER_SPEED * dt,
                             py = py p1 + uy * PLAYER_SPEED * dt\<rparr>)
                      else p1)
                else p1);
          p3 = \<lparr>px = max CLOUD_RADIUS (min (WIDTH - CLOUD_RADIUS) (px p2)),
                py = max CLOUD_RADIUS (min (HEIGHT - CLOUD_RADIUS) (py p2))\<rparr>
      in s\<lparr>player := p3\<rparr>)"

subsection \<open>update: spawning (lines 198--217, 258--281)\<close>

definition spawnObstacle :: "otype \<Rightarrow> real \<Rightarrow> (nat \<Rightarrow> real) \<Rightarrow> nat \<Rightarrow> state \<Rightarrow> state" where
  \<comment> \<open>the draws of this call are \<open>rnd n\<close>, \<open>rnd (n + 1)\<close>, ... in the order of the source\<close>
  "spawnObstacle ty spd rnd n s =
     (let y = rand (rnd n) 40 (HEIGHT - 40)
      in if ty = Asteroid then
           s\<lparr>obstacles := obstacles s @
               [\<lparr>otype = ty, ox = WIDTH + 40, oy = y,
                 radius = rand (rnd (n + 1)) 14 28,
                 speed = spd * rand (rnd (n + 2)) 0.95 1.25,
                 scored = False, wobblePhase = 0, life = 0\<rparr>]\<rparr>
         else
           s\<lparr>obstacles := obstacles s @
               [\<lparr>otype = ty, ox = WIDTH + 60, oy = y,
                 radius = rand (rnd (n + 1)) 18 26,
                 speed = spd * rand (rnd (n + 2)) 0.95 1.2,
                 scored = False,
                 wobblePhase = rand (rnd (n + 3)) 0 (pi * 2),
                 life = 0\<rparr>]\<rparr>)"

definition baseAst :: "difficulty \<Rightarrow> real" where
  "baseAst d = (if d = Hard then 520 else if d = Medium then 700 else 900)"

definition baseAli :: "difficulty \<Rightarrow> real" where
  "baseAli d = (if d = Hard then 800 else if d = Medium then 1100 else 1400)"

definition astInterval :: "difficulty \<Rightarrow> real \<Rightarrow> real" where
  "astInterval d sc = max (baseAst d * 0.55) (baseAst d - sc * 3.5)"

definition aliInterval :: "difficulty \<Rightarrow> real \<Rightarrow> real" where
  "aliInterval d sc = max (baseAli d * 0.6) (baseAli d - sc * 3.8)"

definition spawnPhase :: "real \<Rightarrow> (nat \<Rightarrow> real) \<Rightarrow> state \<Rightarrow> state" where
  "spawnPhase dt rnd s =
     (let diffMult = (if difficulty s = Hard then 1.25
                      else if difficulty s = Medium then 1.0 else 0.85);
          speedBoost = min 260 ((scoreRef s / 20) * 9);
          scrollSpeed = (BASE_SCROLL_SPEED * diffMult) + speedBoost;
          s1 = s\<lparr>spawnTimers := \<lparr>asteroidMs = asteroidMs (spawnTimers s) + dt * 1000,
                                  alienMs = alienMs (spawnTimers s) + dt * 1000\<rparr>\<rparr>;
          fireAst = (asteroidMs (spawnTimers s1) \<ge> astInterval (difficulty s1) (scoreRef s1));
          s2 = (if fireAst then
                  spawnObstacle Asteroid (scrollSpeed * (1.0 + (rnd 0 - 0.5) * 0.2)) rnd 1
                    (s1\<lparr>spawnTimers := (spawnTimers s1)\<lparr>asteroidMs := 0\<rparr>\<rparr>)
                else s1);
          n = (if fireAst then 4 else 0)
      in if alienMs (spawnTimers s2) \<ge> aliInterval (difficulty s2) (scoreRef s2) then
           spawnObstacle Alien (scrollSpeed * 1.12 * (1.0 + (rnd n - 0.5) * 0.2)) rnd (n + 1)
             (s2\<lparr>spawnTimers := (spawnTimers s2)\<lparr>alienMs := 0\<rparr>\<rparr>)
         else s2)"

subsection \<open>update: the obstacle loop (lines 219--252)\<close>

definition advance :: "real \<Rightarrow> obstacle \<Rightarrow> obstacle" where
  \<comment> \<open>lines 223--227: \<open>x\<close>, then for an alien \<open>y\<close> from the old \<open>life\<close>, then \<open>life\<close>\<close>
  "advance dt ob =
     (let ob1 = ob\<lparr>ox := ox ob - speed ob * dt\<rparr>
      in if otype ob1 = Alien then
           (let ob2 = ob1\<lparr>oy := oy ob1 + sin ((life ob1 * 2 + wobblePhase ob1) * 2.2) * 40 * dt\<rparr>
            in ob2\<lparr>life := life ob2 + dt\<rparr>)
         else ob1)"

definition passes :: "player_t \<Rightarrow> obstacle \<Rightarrow> bool" where
  \<comment> \<open>the condition of line 229\<close>
  "passes p ob = (\<not> scored ob \<and> ox ob + radius ob < px p - CLOUD_RADIUS * 0.2)"

definition points :: "obstacle \<Rightarrow> real" where
  \<comment> \<open>line 231\<close>
  "points ob = (if otype ob = Alien then 8 else 5)"

definition culled :: "obstacle \<Rightarrow> bool" where
  \<comment> \<open>the condition of line 234\<close>
  "culled ob = (ox ob < - radius ob * 2)"

definition collides :: "player_t \<Rightarrow> obstacle \<Rightarrow> bool" where
  \<comment> \<open>lines 239--240\<close>
  "collides p ob =
     (let dist = length' (px p - ox ob) (py p - oy ob)
      in dist < CLOUD_RADIUS + radius ob * 0.9)"

definition endRound :: "state \<Rightarrow> state" where
  \<comment> \<open>lines 241--249, without the two music paths\<close>
  "endRound s =
     (let s1 = s\<lparr>gameOver := True\<rparr>;
          s2 = speak (GameOverScore \<lfloor>scoreRef s1\<rfloor>) s1
      in s2\<lparr>gameState := Menu\<rparr>)"

datatype 'a flow = Next 'a | Return 'a

fun flowState :: "'a flow \<Rightarrow> 'a" where
  "flowState (Next s) = s"
| "flowState (Return s) = s"

definition loopBody :: "real \<Rightarrow> nat \<Rightarrow> state \<Rightarrow> state flow" where
  \<comment> \<open>one iteration, at index \<open>i\<close>; the object is changed in place, so the changed object
      is written back to the array before the checks that may remove it\<close>
  "loopBody dt i s =
     (let ob1 = advance dt (obstacles s ! i);
          hit = passes (player s) ob1;
          ob2 = (if hit then ob1\<lparr>scored := True\<rparr> else ob1);
          s1 = (if hit then s\<lparr>scoreRef := scoreRef s + points ob2\<rparr> else s);
          s2 = s1\<lparr>obstacles := (obstacles s1)[i := ob2]\<rparr>
      in if culled ob2 then
           Next (s2\<lparr>obstacles := take i (obstacles s2) @ drop (Suc i) (obstacles s2)\<rparr>)
         else if collides (player s2) ob2 then Return (endRound s2)
         else Next s2)"

fun obstacleLoop :: "real \<Rightarrow> nat \<Rightarrow> state \<Rightarrow> state" where
  \<comment> \<open>\<open>obstacleLoop dt k s\<close> runs the iterations \<open>i = k - 1, ..., 0\<close>\<close>
  "obstacleLoop dt 0 s = s"
| "obstacleLoop dt (Suc i) s =
     (case loopBody dt i s of
        Return s' \<Rightarrow> s'
      | Next s' \<Rightarrow> obstacleLoop dt i s')"

definition update :: "real \<Rightarrow> (nat \<Rightarrow> real) \<Rightarrow> state \<Rightarrow> state" where
  "update dt rnd s =
     (let s1 = movePlayer dt s;
          s2 = spawnPhase dt rnd s1
      in obstacleLoop dt (length (obstacles s2)) s2)"

definition tick :: "real \<Rightarrow> (nat \<Rightarrow> real) \<Rightarrow> state \<Rightarrow> state" where
  \<comment> \<open>lines 94--96 of the frame loop\<close>
  "tick dt rnd s = (if gameState s = Playing then update dt rnd s else s)"

subsection \<open>The three phases of the specification\<close>

datatype phase = PhaseMenu | PhasePlaying | PhaseGameOver

definition phase :: "state \<Rightarrow> phase" where
  \<comment> \<open>a collision sets \<open>gameOver\<close> and sends \<open>gameState\<close> back to \<open>'menu'\<close>: the game-over
      screen is the menu state with the \<open>gameOver\<close> flag up\<close>
  "phase s = (if gameState s = Playing then PhasePlaying
              else if gameOver s then PhaseGameOver else PhaseMenu)"

subsection \<open>The obstacle loop as a function on lists\<close>

text \<open>
  What one iteration does to its obstacle, and what it adds to the score.
\<close>

definition processed :: "real \<Rightarrow> player_t \<Rightarrow> obstacle \<Rightarrow> obstacle" where
  "processed dt p ob =
     (let ob1 = advance dt ob in if passes p ob1 then ob1\<lparr>scored := True\<rparr> else ob1)"

definition gain :: "real \<Rightarrow> player_t \<Rightarrow> obstacle \<Rightarrow> real" where
  "gain dt p ob = (if passes p (advance dt ob) then points ob else 0)"

text \<open>
  \<open>sweep dt p xs sc\<close> visits the obstacles \<open>xs\<close> from the head on, starting with the score
  \<open>sc\<close>: each is advanced and scored, then dropped when culled; the sweep stops at the
  first one that collides and leaves the rest as it is. The result says whether it
  stopped, and gives the list and the score.
\<close>

fun sweep :: "real \<Rightarrow> player_t \<Rightarrow> obstacle list \<Rightarrow> real \<Rightarrow> bool \<times> obstacle list \<times> real" where
  "sweep dt p [] sc = (False, [], sc)"
| "sweep dt p (ob # rest) sc =
     (let ob2 = processed dt p ob;
          sc1 = sc + gain dt p ob
      in if culled ob2 then sweep dt p rest sc1
         else if collides p ob2 then (True, ob2 # rest, sc1)
         else (case sweep dt p rest sc1 of (c, rest', sc2) \<Rightarrow> (c, ob2 # rest', sc2)))"

definition finishPass :: "state \<Rightarrow> obstacle list \<Rightarrow> bool \<times> obstacle list \<times> real \<Rightarrow> state" where
  \<comment> \<open>the state after a sweep over the reversed array; \<open>kept\<close> are the entries behind it\<close>
  "finishPass s kept r =
     (case r of (c, ys, sc) \<Rightarrow>
        (let s1 = s\<lparr>scoreRef := sc, obstacles := rev ys @ kept\<rparr>
         in if c then endRound s1 else s1))"

definition newestFirstPass :: "real \<Rightarrow> state \<Rightarrow> state" where
  \<comment> \<open>one pass from the newest obstacle (the end of the array) to the oldest\<close>
  "newestFirstPass dt s =
     finishPass s [] (sweep dt (player s) (rev (obstacles s)) (scoreRef s))"

definition spawnOrderPass :: "real \<Rightarrow> state \<Rightarrow> state" where
  \<comment> \<open>the pass in the words of the specification: the same steps, from the oldest
      obstacle (the head of the array) to the newest\<close>
  "spawnOrderPass dt s =
     (case sweep dt (player s) (obstacles s) (scoreRef s) of (c, ys, sc) \<Rightarrow>
        (let s1 = s\<lparr>scoreRef := sc, obstacles := ys\<rparr>
         in if c then endRound s1 else s1))"

subsection \<open>Example states\<close>

text \<open>
  \<open>initial\<close> is the state the component is mounted with (lines 20--43), in a browser
  with a speech synthesiser; \<open>round0\<close> is a fresh round after the Start button.
\<close>

definition initial :: state where
  "initial = \<lparr>player = \<lparr>px = 120, py = HEIGHT / 2\<rparr>,
              keys = {},
              pointer = \<lparr>active = False, ptx = 0, pty = 0\<rparr>,
              spawnTimers = \<lparr>asteroidMs = 0, alienMs = 0\<rparr>,
              obstacles = [],
              scoreRef = 0,
              gameOver = False,
              gameState = Menu,
              difficulty = Easy,
              speechAllowed = False,
              isMuted = False,
              hasSpeechSynthesis = True,
              speakCalls = [],
              spoken = []\<rparr>"

definition round0 :: state where
  "round0 = startGame initial"

definition noDraws :: "nat \<Rightarrow> real" where
  \<comment> \<open>every \<open>Math.random()\<close> returns 0\<close>
  "noDraws n = 0"

definition rock :: "real \<Rightarrow> real \<Rightarrow> obstacle" where
  \<comment> \<open>an asteroid of radius 20 that moves 200 units a second\<close>
  "rock x y = \<lparr>otype = Asteroid, ox = x, oy = y, radius = 20, speed = 200,
               scored = False, wobblePhase = 0, life = 0\<rparr>"

definition saucer :: "real \<Rightarrow> real \<Rightarrow> obstacle" where
  \<comment> \<open>a new alien of radius 20 that moves 200 units a second\<close>
  "saucer x y = \<lparr>otype = Alien, ox = x, oy = y, radius = 20, speed = 200,
                 scored = False, wobblePhase = 0, life = 0\<rparr>"

definition twoRocks :: state where
  \<comment> \<open>two asteroids on the player, the older one first\<close>
  "twoRocks = round0\<lparr>obstacles := [rock 130 250, rock 140 250]\<rparr>"


definition visiting :: state where
  "visiting = round0\<lparr>obstacles := [saucer 400 250]\<rparr>"

definition crash :: state where
  \<comment> \<open>scenario B of the specification\<close>
  "crash = round0\<lparr>obstacles := [rock 130 250]\<rparr>"



section \<open>The same code at double precision\<close>

subsection \<open>IEEE 754 doubles\<close>

text \<open>
  A JavaScript number is a finite double, \<open>+\<infinity>\<close>, \<open>-\<infinity>\<close> or NaN. A finite double
  is represented by the real number it denotes, so the two zeros are one value (a zero
  divisor is taken as \<open>+0\<close>). \<open>nearest x\<close> is the double next to the real \<open>x\<close>, ties to
  even, found on the grid of spacing \<open>ulp x\<close> (52 fraction bits, smallest exponent
  \<open>-1022\<close>); \<open>fl\<close> rounds a real into the doubles and overflows to an infinity from
  \<open>2^1024\<close> on.
\<close>

definition rne :: "real \<Rightarrow> int" where
  "rne q = (let f = \<lfloor>q\<rfloor>; d = q - of_int f
            in if d < 1/2 then f else if 1/2 < d then f + 1
               else if even f then f else f + 1)"

definition expo :: "real \<Rightarrow> int" where
  "expo x = max \<lfloor>log 2 \<bar>x\<bar>\<rfloor> (- 1022)"

definition ulp :: "real \<Rightarrow> real" where
  "ulp x = 2 powr (of_int (expo x) - 52)"

definition nearest :: "real \<Rightarrow> real" where
  "nearest x = sgn x * (of_int (rne (\<bar>x\<bar> / ulp x)) * ulp x)"

datatype double = Fin real | PosInf | NegInf | NaN

definition fl :: "real \<Rightarrow> double" where
  "fl x = (let r = nearest x
           in if 2 ^ 1024 \<le> r then PosInf
              else if r \<le> - (2 ^ 1024) then NegInf
              else Fin r)"

text \<open>
  The operators \<open>-x\<close>, \<open>+\<close>, \<open>-\<close>, \<open>*\<close>, \<open>/\<close>, \<open><\<close>, \<open><=\<close>, \<open>>\<close>, \<open>>=\<close>, \<open>Math.max\<close> and
  \<open>Math.min\<close> on two numbers, and a numeric literal of the source: each operation rounds
  its exact result once. \<open>Math.hypot\<close> and \<open>Math.sin\<close> are implementation-approximated in
  ECMAScript, which only fixes their values at some arguments; in the definitions below
  they are arguments (\<open>hyp\<close>, \<open>sn\<close>), as \<open>Math.random\<close> is. \<open>jhypot\<close> is the correctly rounded
  \<open>hypot\<close>, with \<open>+\<infinity>\<close> for an infinite argument as ECMAScript requires. The examples
  use it; those that compare a distance do so where one coordinate difference is 0 and
  the result is the magnitude of the other.

  The theorems quantify over all values \<open>Fin a\<close>, of which the doubles are a part: an
  operation rounds whatever it is given.
\<close>

fun jneg :: "double \<Rightarrow> double" where
  "jneg (Fin a) = Fin (- a)"
| "jneg PosInf = NegInf"
| "jneg NegInf = PosInf"
| "jneg NaN = NaN"

fun jadd :: "double \<Rightarrow> double \<Rightarrow> double" where
  "jadd NaN b = NaN"
| "jadd a NaN = NaN"
| "jadd (Fin a) (Fin b) = fl (a + b)"
| "jadd PosInf NegInf = NaN"
| "jadd NegInf PosInf = NaN"
| "jadd PosInf b = PosInf"
| "jadd NegInf b = NegInf"
| "jadd a PosInf = PosInf"
| "jadd a NegInf = NegInf"

definition jsub :: "double \<Rightarrow> double \<Rightarrow> double" where
  "jsub a b = jadd a (jneg b)"

definition signed :: "bool \<Rightarrow> double" where
  "signed pos = (if pos then PosInf else NegInf)"

fun jmul :: "double \<Rightarrow> double \<Rightarrow> double" where
  "jmul NaN b = NaN"
| "jmul a NaN = NaN"
| "jmul (Fin a) (Fin b) = fl (a * b)"
| "jmul (Fin a) PosInf = (if a = 0 then NaN else signed (0 < a))"
| "jmul (Fin a) NegInf = (if a = 0 then NaN else signed (a < 0))"
| "jmul PosInf (Fin b) = (if b = 0 then NaN else signed (0 < b))"
| "jmul NegInf (Fin b) = (if b = 0 then NaN else signed (b < 0))"
| "jmul PosInf PosInf = PosInf"
| "jmul NegInf NegInf = PosInf"
| "jmul PosInf NegInf = NegInf"
| "jmul NegInf PosInf = NegInf"

fun jdiv :: "double \<Rightarrow> double \<Rightarrow> double" where
  "jdiv NaN b = NaN"
| "jdiv a NaN = NaN"
| "jdiv (Fin a) (Fin b) =
     (if b = 0 then (if a = 0 then NaN else signed (0 < a)) else fl (a / b))"
| "jdiv (Fin a) b = Fin 0"
| "jdiv PosInf (Fin b) = signed (0 \<le> b)"
| "jdiv NegInf (Fin b) = signed (b < 0)"
| "jdiv a b = NaN"


fun jlt :: "double \<Rightarrow> double \<Rightarrow> bool" where
  "jlt NaN b = False"
| "jlt a NaN = False"
| "jlt (Fin a) (Fin b) = (a < b)"
| "jlt a PosInf = (a \<noteq> PosInf)"
| "jlt NegInf b = (b \<noteq> NegInf)"
| "jlt a b = False"

fun jle :: "double \<Rightarrow> double \<Rightarrow> bool" where
  "jle NaN b = False"
| "jle a NaN = False"
| "jle (Fin a) (Fin b) = (a \<le> b)"
| "jle a PosInf = True"
| "jle NegInf b = True"
| "jle a b = False"

definition jgt :: "double \<Rightarrow> double \<Rightarrow> bool" where
  "jgt a b = jlt b a"

definition jge :: "double \<Rightarrow> double \<Rightarrow> bool" where
  "jge a b = jle b a"

definition jmax :: "double \<Rightarrow> double \<Rightarrow> double" where
  "jmax a b = (if a = NaN \<or> b = NaN then NaN else if jlt a b then b else a)"

definition jmin :: "double \<Rightarrow> double \<Rightarrow> double" where
  "jmin a b = (if a = NaN \<or> b = NaN then NaN else if jlt b a then b else a)"

definition lit :: "real \<Rightarrow> double" where
  "lit x = fl x"

subsection \<open>update at double precision: the spawn thresholds (lines 204--217)\<close>

definition baseAstD :: "difficulty \<Rightarrow> double" where
  \<comment> \<open>line 206\<close>
  "baseAstD d = (if d = Hard then lit 520 else if d = Medium then lit 700 else lit 900)"

definition baseAliD :: "difficulty \<Rightarrow> double" where
  \<comment> \<open>line 207\<close>
  "baseAliD d = (if d = Hard then lit 800 else if d = Medium then lit 1100 else lit 1400)"

definition astIntervalD :: "difficulty \<Rightarrow> double \<Rightarrow> double" where
  \<comment> \<open>line 208, with the score as second argument\<close>
  "astIntervalD d sc =
     jmax (jmul (baseAstD d) (lit 0.55)) (jsub (baseAstD d) (jmul sc (lit 3.5)))"

definition aliIntervalD :: "difficulty \<Rightarrow> double \<Rightarrow> double" where
  \<comment> \<open>line 209\<close>
  "aliIntervalD d sc =
     jmax (jmul (baseAliD d) (lit 0.6)) (jsub (baseAliD d) (jmul sc (lit 3.8)))"

record timersD =
  asteroidMsD :: double
  alienMsD :: double

definition spawnTimersD :: "double \<Rightarrow> difficulty \<Rightarrow> double \<Rightarrow> timersD \<Rightarrow> timersD" where
  \<comment> \<open>what lines 204--217 do to the two timers: each is advanced by \<open>dt * 1000\<close> and
      reset to 0 when it has reached its threshold (the obstacle it then spawns is not
      part of this definition)\<close>
  "spawnTimersD dt d sc t =
     (let a = jadd (asteroidMsD t) (jmul dt (lit 1000));
          b = jadd (alienMsD t) (jmul dt (lit 1000))
      in \<lparr>asteroidMsD = (if jge a (astIntervalD d sc) then lit 0 else a),
          alienMsD = (if jge b (aliIntervalD d sc) then lit 0 else b)\<rparr>)"

subsection \<open>update at double precision: one iteration of the obstacle loop (lines 222--251)\<close>

text \<open>
  The scoring of lines 229--233 writes the score and the flag \<open>scored\<close> only; it changes
  neither the position nor what the iteration does next, and is left out here.
\<close>

record playerD =
  dpx :: double
  dpy :: double

record obstacleD =
  dotype :: otype
  dox :: double
  doy :: double
  dradius :: double
  dspeed :: double
  dwobblePhase :: double
  dlife :: double


definition advanceD :: "(double \<Rightarrow> double) \<Rightarrow> double \<Rightarrow> obstacleD \<Rightarrow> obstacleD" where
  \<comment> \<open>lines 223--227, with \<open>Math.sin\<close> as the argument \<open>sn\<close>\<close>
  "advanceD sn dt ob =
     (let ob1 = ob\<lparr>dox := jsub (dox ob) (jmul (dspeed ob) dt)\<rparr>
      in if dotype ob1 = Alien then
           (let ob2 = ob1\<lparr>doy := jadd (doy ob1)
                  (jmul (jmul (sn (jmul (jadd (jmul (dlife ob1) (lit 2)) (dwobblePhase ob1)) (lit 2.2)))
                              (lit 40)) dt)\<rparr>
            in ob2\<lparr>dlife := jadd (dlife ob2) dt\<rparr>)
         else ob1)"








subsection \<open>update at double precision: the player (lines 173--196)\<close>

text \<open>
  \<open>boundedBy B v\<close> says that \<open>v\<close> is a finite number of magnitude at most \<open>B\<close>;
  \<open>inBoundsD\<close> is the field shrunk by the radius of the player on every side.
\<close>

record pointerD =
  activeD :: bool
  dptx :: double
  dpty :: double


fun boundedBy :: "real \<Rightarrow> double \<Rightarrow> bool" where
  "boundedBy B (Fin a) = (\<bar>a\<bar> \<le> B)"
| "boundedBy B v = False"


definition movePlayerD ::
  "(double \<Rightarrow> double \<Rightarrow> double) \<Rightarrow> double \<Rightarrow> string set \<Rightarrow> pointerD \<Rightarrow> playerD \<Rightarrow> playerD" where
  \<comment> \<open>lines 173--196, with \<open>Math.hypot\<close> as the argument \<open>hyp\<close>\<close>
  "movePlayerD hyp dt ks ptr p =
     (let vertical = jsub (if ''arrowdown'' \<in> ks \<or> ''s'' \<in> ks then Fin 1 else Fin 0)
                          (if ''arrowup'' \<in> ks \<or> ''w'' \<in> ks then Fin 1 else Fin 0);
          horizontal = jsub (if ''arrowright'' \<in> ks \<or> ''d'' \<in> ks then Fin 1 else Fin 0)
                            (if ''arrowleft'' \<in> ks \<or> ''a'' \<in> ks then Fin 1 else Fin 0);
          p1 = \<lparr>dpx = jadd (dpx p) (jmul (jmul horizontal (lit PLAYER_SPEED)) dt),
                dpy = jadd (dpy p) (jmul (jmul vertical (lit PLAYER_SPEED)) dt)\<rparr>;
          p2 = (if activeD ptr then
                  (let dx = jsub (dptx ptr) (dpx p1);
                       dy = jsub (dpty ptr) (dpy p1);
                       dist = hyp dx dy;
                       deadZone = lit 6
                   in if jgt dist deadZone then
                        (let ux = jdiv dx dist; uy = jdiv dy dist
                         in \<lparr>dpx = jadd (dpx p1) (jmul (jmul ux (lit PLAYER_SPEED)) dt),
                             dpy = jadd (dpy p1) (jmul (jmul uy (lit PLAYER_SPEED)) dt)\<rparr>)
                      else p1)
                else p1)
      in \<lparr>dpx = jmax (lit CLOUD_RADIUS) (jmin (jsub (lit WIDTH) (lit CLOUD_RADIUS)) (dpx p2)),
          dpy = jmax (lit CLOUD_RADIUS) (jmin (jsub (lit HEIGHT) (lit CLOUD_RADIUS)) (dpy p2))\<rparr>)"

definition inBoundsD :: "playerD \<Rightarrow> bool" where
  "inBoundsD p =
     (jle (lit CLOUD_RADIUS) (dpx p) \<and> jle (dpx p) (jsub (lit WIDTH) (lit CLOUD_RADIUS)) \<and>
      jle (lit CLOUD_RADIUS) (dpy p) \<and> jle (dpy p) (jsub (lit HEIGHT) (lit CLOUD_RADIUS)))"


section \<open>Properties\<close>

subsection \<open>What an iteration reads and keeps\<close>

lemma otype_advance [simp]: "otype (advance dt ob) = otype ob"
  by (simp add: advance_def Let_def)

lemma radius_advance [simp]: "radius (advance dt ob) = radius ob"
  by (simp add: advance_def Let_def)

lemma scored_advance [simp]: "scored (advance dt ob) = scored ob"
  by (simp add: advance_def Let_def)

lemma ox_advance [simp]: "ox (advance dt ob) = ox ob - speed ob * dt"
  by (simp add: advance_def Let_def)

lemma points_advance [simp]: "points (advance dt ob) = points ob"
  by (simp add: points_def)

lemma culled_processed [simp]: "culled (processed dt p ob) = culled (advance dt ob)"
  by (simp add: processed_def Let_def culled_def)

lemma collides_processed [simp]: "collides p (processed dt p ob) = collides p (advance dt ob)"
  by (simp add: processed_def Let_def collides_def)

lemma player_endRound [simp]: "player (endRound s) = player s"
  by (simp add: endRound_def speak_def Let_def)


lemma loopBody_cases:
  "loopBody dt i s =
     (let ob = obstacles s ! i;
          s1 = s\<lparr>scoreRef := scoreRef s + gain dt (player s) ob\<rparr>;
          s2 = s1\<lparr>obstacles := (obstacles s)[i := processed dt (player s) ob]\<rparr>
      in if culled (advance dt ob) then
           Next (s1\<lparr>obstacles := take i (obstacles s) @ drop (Suc i) (obstacles s)\<rparr>)
         else if collides (player s) (advance dt ob) then Return (endRound s2)
         else Next s2)"
  by (simp add: loopBody_def Let_def gain_def processed_def points_def culled_def collides_def)

subsection \<open>The loop on the array is a sweep over the reversed array\<close>

lemma obstacleLoop_sweep:
  "k \<le> length (obstacles s) \<Longrightarrow>
   obstacleLoop dt k s =
     finishPass s (drop k (obstacles s))
       (sweep dt (player s) (rev (take k (obstacles s))) (scoreRef s))"
proof (induction k arbitrary: s)
  case 0
  then show ?case by (simp add: finishPass_def)
next
  case (Suc i)
  then have i: "i < length (obstacles s)" by simp
  show ?case
    using i Suc.IH
    by (auto simp add: take_Suc_conv_app_nth loopBody_cases Let_def finishPass_def
           upd_conv_take_nth_drop split: prod.splits)
qed

lemma update_newestFirst:
  "update dt rnd s = newestFirstPass dt (spawnPhase dt rnd (movePlayer dt s))"
  using obstacleLoop_sweep [of "length (obstacles (spawnPhase dt rnd (movePlayer dt s)))"
          "spawnPhase dt rnd (movePlayer dt s)" dt]
  by (simp add: update_def newestFirstPass_def Let_def)

subsection \<open>Facts about the sweep\<close>


lemma sweep_collided_iff:
  "fst (sweep dt p xs sc) \<longleftrightarrow>
     (\<exists>ob\<in>set xs. \<not> culled (advance dt ob) \<and> collides p (advance dt ob))"
  by (induction xs arbitrary: sc) (auto simp: Let_def split_beta)



subsection \<open>The player and the spawner\<close>

lemma player_spawnObstacle [simp]: "player (spawnObstacle ty spd rnd n s) = player s"
  by (simp add: spawnObstacle_def Let_def)

lemma timers_spawnObstacle [simp]: "spawnTimers (spawnObstacle ty spd rnd n s) = spawnTimers s"
  by (simp add: spawnObstacle_def Let_def)

lemma difficulty_spawnObstacle [simp]: "difficulty (spawnObstacle ty spd rnd n s) = difficulty s"
  by (simp add: spawnObstacle_def Let_def)

lemma scoreRef_spawnObstacle [simp]: "scoreRef (spawnObstacle ty spd rnd n s) = scoreRef s"
  by (simp add: spawnObstacle_def Let_def)

lemma player_spawnPhase [simp]: "player (spawnPhase dt rnd s) = player s"
  by (simp add: spawnPhase_def Let_def)

lemma player_finishPass [simp]: "player (finishPass s kept r) = player s"
  by (cases r) (simp add: finishPass_def Let_def)


subsection \<open>Collisions without the square root\<close>

lemma collides_iff:
  "collides p ob \<longleftrightarrow>
     0 < CLOUD_RADIUS + radius ob * 0.9 \<and>
     (px p - ox ob)\<^sup>2 + (py p - oy ob)\<^sup>2 < (CLOUD_RADIUS + radius ob * 0.9)\<^sup>2"
proof (cases "0 < CLOUD_RADIUS + radius ob * 0.9")
  case True
  then have "sqrt ((CLOUD_RADIUS + radius ob * 0.9)\<^sup>2) = CLOUD_RADIUS + radius ob * 0.9"
    by simp
  then have "sqrt ((px p - ox ob)\<^sup>2 + (py p - oy ob)\<^sup>2) < CLOUD_RADIUS + radius ob * 0.9
     \<longleftrightarrow> (px p - ox ob)\<^sup>2 + (py p - oy ob)\<^sup>2 < (CLOUD_RADIUS + radius ob * 0.9)\<^sup>2"
    using real_sqrt_less_iff [of "(px p - ox ob)\<^sup>2 + (py p - oy ob)\<^sup>2"
        "(CLOUD_RADIUS + radius ob * 0.9)\<^sup>2"] by simp
  with True show ?thesis by (simp add: collides_def length'_def Let_def)
next
  case False
  have "0 \<le> sqrt ((px p - ox ob)\<^sup>2 + (py p - oy ob)\<^sup>2)" by simp
  with False have "\<not> sqrt ((px p - ox ob)\<^sup>2 + (py p - oy ob)\<^sup>2)
      < CLOUD_RADIUS + radius ob * 0.9"
    by linarith
  with False show ?thesis by (simp add: collides_def length'_def Let_def)
qed

subsection \<open>Running the examples\<close>

lemmas ex_defs = round0_def startGame_def restart_def initial_def noDraws_def rock_def saucer_def
  WIDTH_def HEIGHT_def CLOUD_RADIUS_def PLAYER_SPEED_def BASE_SCROLL_SPEED_def

lemmas pass_defs = newestFirstPass_def finishPass_def Let_def processed_def gain_def advance_def
  passes_def culled_def collides_iff points_def endRound_def speak_def power2_eq_square

text \<open>
  In a fresh round with some obstacles put in, a tick of 1/32 s moves no player (no key
  is held) and spawns nothing (the timers reach 31.25 ms).
\<close>

lemma move_round0:
  "movePlayer (1/32) (round0\<lparr>obstacles := obs\<rparr>) = round0\<lparr>obstacles := obs\<rparr>"
  by (simp add: movePlayer_def ex_defs Let_def)

lemma spawn_round0:
  "spawnPhase (1/32) noDraws (round0\<lparr>obstacles := obs\<rparr>) =
     round0\<lparr>obstacles := obs, spawnTimers := \<lparr>asteroidMs = 125 / 4, alienMs = 125 / 4\<rparr>\<rparr>"
  by (simp add: spawnPhase_def ex_defs Let_def astInterval_def aliInterval_def
      baseAst_def baseAli_def)

lemma update_round0:
  "update (1/32) noDraws (round0\<lparr>obstacles := obs\<rparr>) =
     newestFirstPass (1/32)
       (round0\<lparr>obstacles := obs,
          spawnTimers := \<lparr>asteroidMs = 125 / 4, alienMs = 125 / 4\<rparr>\<rparr>)"
  by (simp only: update_newestFirst move_round0 spawn_round0)

subsection \<open>Fields that a step leaves alone\<close>

lemma movePlayer_shape: "\<exists>p. movePlayer dt s = s\<lparr>player := p\<rparr>"
  unfolding movePlayer_def Let_def by (rule exI) (rule refl)

lemma movePlayer_fields [simp]:
  "obstacles (movePlayer dt s) = obstacles s"
  "scoreRef (movePlayer dt s) = scoreRef s"
  "gameOver (movePlayer dt s) = gameOver s"
  "gameState (movePlayer dt s) = gameState s"
  "difficulty (movePlayer dt s) = difficulty s"
  "spawnTimers (movePlayer dt s) = spawnTimers s"
  "speechAllowed (movePlayer dt s) = speechAllowed s"
  "isMuted (movePlayer dt s) = isMuted s"
  "hasSpeechSynthesis (movePlayer dt s) = hasSpeechSynthesis s"
  "speakCalls (movePlayer dt s) = speakCalls s"
  "spoken (movePlayer dt s) = spoken s"
proof -
  obtain p where "movePlayer dt s = s\<lparr>player := p\<rparr>"
    using movePlayer_shape by blast
  then show
    "obstacles (movePlayer dt s) = obstacles s"
    "scoreRef (movePlayer dt s) = scoreRef s"
    "gameOver (movePlayer dt s) = gameOver s"
    "gameState (movePlayer dt s) = gameState s"
    "difficulty (movePlayer dt s) = difficulty s"
    "spawnTimers (movePlayer dt s) = spawnTimers s"
    "speechAllowed (movePlayer dt s) = speechAllowed s"
    "isMuted (movePlayer dt s) = isMuted s"
    "hasSpeechSynthesis (movePlayer dt s) = hasSpeechSynthesis s"
    "speakCalls (movePlayer dt s) = speakCalls s"
    "spoken (movePlayer dt s) = spoken s"
    by simp_all
qed

lemma spawnObstacle_fields [simp]:
  "gameOver (spawnObstacle ty spd rnd n s) = gameOver s"
  "gameState (spawnObstacle ty spd rnd n s) = gameState s"
  "speechAllowed (spawnObstacle ty spd rnd n s) = speechAllowed s"
  "isMuted (spawnObstacle ty spd rnd n s) = isMuted s"
  "hasSpeechSynthesis (spawnObstacle ty spd rnd n s) = hasSpeechSynthesis s"
  "speakCalls (spawnObstacle ty spd rnd n s) = speakCalls s"
  "spoken (spawnObstacle ty spd rnd n s) = spoken s"
  by (simp_all add: spawnObstacle_def Let_def)

lemma spawnPhase_fields [simp]:
  "scoreRef (spawnPhase dt rnd s) = scoreRef s"
  "gameOver (spawnPhase dt rnd s) = gameOver s"
  "gameState (spawnPhase dt rnd s) = gameState s"
  "difficulty (spawnPhase dt rnd s) = difficulty s"
  "speechAllowed (spawnPhase dt rnd s) = speechAllowed s"
  "isMuted (spawnPhase dt rnd s) = isMuted s"
  "hasSpeechSynthesis (spawnPhase dt rnd s) = hasSpeechSynthesis s"
  "speakCalls (spawnPhase dt rnd s) = speakCalls s"
  "spoken (spawnPhase dt rnd s) = spoken s"
  by (simp_all add: spawnPhase_def Let_def)

lemma endRound_fields [simp]:
  "scoreRef (endRound s) = scoreRef s"
  "obstacles (endRound s) = obstacles s"
  "gameOver (endRound s) = True"
  "gameState (endRound s) = Menu"
  "difficulty (endRound s) = difficulty s"
  "speakCalls (endRound s) = speakCalls s @ [GameOverScore \<lfloor>scoreRef s\<rfloor>]"
  "spoken (endRound s) =
     (if speechAllowed s \<and> \<not> isMuted s \<and> hasSpeechSynthesis s
      then spoken s @ [GameOverScore \<lfloor>scoreRef s\<rfloor>] else spoken s)"
  by (simp_all add: endRound_def speak_def Let_def)

lemma finishPass_fields [simp]:
  "scoreRef (finishPass s kept r) = snd (snd r)"
  "obstacles (finishPass s kept r) = rev (fst (snd r)) @ kept"
  "gameOver (finishPass s kept r) = (gameOver s \<or> fst r)"
  "difficulty (finishPass s kept r) = difficulty s"
  by (cases r; simp add: finishPass_def Let_def)+


subsection \<open>A value of the sine\<close>

lemma sin_11_80_pos: "0 < sin (11 / 80 :: real)"
proof -
  have "(11 / 80 :: real) < pi" using pi_ge_two by simp
  then show ?thesis by (intro sin_gt_zero) simp_all
qed

subsection \<open>A tick that goes on, a tick that ends the round\<close>





lemma difficulty_update: "difficulty (update dt rnd s) = difficulty s"
  by (simp add: update_newestFirst newestFirstPass_def)

subsection \<open>The examples after one tick\<close>



lemma update_crash:
  "update (1/32) noDraws crash =
     round0\<lparr>obstacles := [rock (495 / 4) 250],
            spawnTimers := \<lparr>asteroidMs = 125 / 4, alienMs = 125 / 4\<rparr>,
            gameOver := True, speakCalls := [GameOverScore 0], gameState := Menu\<rparr>"
  unfolding crash_def update_round0 by (simp add: pass_defs ex_defs)


section \<open>Properties of the double-precision arithmetic\<close>

subsection \<open>Rounding to the nearest double\<close>

lemma rne_of_int [simp]: "rne (of_int n) = n"
  by (simp add: rne_def)

lemma rne_bounds: "of_int (rne q) \<le> q + 1/2" "q - 1/2 \<le> of_int (rne q)"
  unfolding rne_def Let_def by (auto; linarith)+

lemma rne_mono: "q \<le> q' \<Longrightarrow> rne q \<le> rne q'"
proof -
  assume le: "q \<le> q'"
  then have f: "\<lfloor>q\<rfloor> \<le> \<lfloor>q'\<rfloor>" by (rule floor_mono)
  show ?thesis
  proof (cases "\<lfloor>q\<rfloor> = \<lfloor>q'\<rfloor>")
    case True
    with le show ?thesis by (auto simp: rne_def Let_def)
  next
    case False
    with f have "\<lfloor>q\<rfloor> + 1 \<le> \<lfloor>q'\<rfloor>" by simp
    moreover have "rne q \<le> \<lfloor>q\<rfloor> + 1" by (auto simp: rne_def Let_def)
    moreover have "\<lfloor>q'\<rfloor> \<le> rne q'" by (auto simp: rne_def Let_def)
    ultimately show ?thesis by linarith
  qed
qed

lemma ulp_pos [simp]: "0 < ulp x"
  by (simp add: ulp_def)

lemma rne_zero [simp]: "rne 0 = 0"
  using rne_of_int [of 0] by simp

lemma ulp_nonneg [simp]: "0 \<le> ulp x"
  by (simp add: ulp_def)

lemma rne_nonneg: "0 \<le> q \<Longrightarrow> 0 \<le> rne q"
  using rne_mono [of 0 q] by simp

lemma expo_upper: "0 < x \<Longrightarrow> x < 2 powr (of_int (expo x) + 1)"
proof -
  assume x: "0 < x"
  have "log 2 x < of_int \<lfloor>log 2 x\<rfloor> + 1" by linarith
  also have "\<dots> \<le> of_int (expo x) + 1" using x by (simp add: expo_def)
  finally have "2 powr (log 2 x) < 2 powr (of_int (expo x) + 1)"
    by (simp add: powr_less_mono)
  with x show ?thesis by simp
qed

lemma expo_lower: "0 < x \<Longrightarrow> - 1022 < expo x \<Longrightarrow> 2 powr (of_int (expo x)) \<le> x"
proof -
  assume x: "0 < x" and e: "- 1022 < expo x"
  then have "expo x = \<lfloor>log 2 x\<rfloor>" by (simp add: expo_def max_def split: if_splits)
  then have "of_int (expo x) \<le> log 2 x" by simp
  then have "2 powr (of_int (expo x)) \<le> 2 powr (log 2 x)"
    by (simp add: powr_mono)
  with x show ?thesis by simp
qed

lemma expo_mono: "0 < x \<Longrightarrow> x \<le> y \<Longrightarrow> expo x \<le> expo y"
proof -
  assume x: "0 < x" and le: "x \<le> y"
  then have "log 2 x \<le> log 2 y" by simp
  then have "\<lfloor>log 2 x\<rfloor> \<le> \<lfloor>log 2 y\<rfloor>" by (rule floor_mono)
  with x le show ?thesis by (simp add: expo_def)
qed

lemma expo_abs [simp]: "expo \<bar>x\<bar> = expo x" "expo (- x) = expo x"
  by (simp_all add: expo_def)

lemma ulp_abs [simp]: "ulp \<bar>x\<bar> = ulp x" "ulp (- x) = ulp x"
  by (simp_all add: ulp_def)

lemma rne_numeral [simp]: "rne (numeral n) = numeral n"
  using rne_of_int [of "numeral n"] by simp

lemma ulp_times: "ulp x * 2 ^ 53 = 2 powr (of_int (expo x) + 1)"
proof -
  have "(2::real) ^ 53 = 2 powr 53" by simp
  then have "ulp x * 2 ^ 53 = 2 powr (of_int (expo x) - 52) * 2 powr 53"
    by (simp only: ulp_def)
  also have "\<dots> = 2 powr (of_int (expo x) - 52 + 53)"
    by (simp only: powr_add)
  also have "of_int (expo x) - 52 + 53 = (of_int (expo x) + 1 :: real)"
    by arith
  finally show ?thesis .
qed

lemma ulp_times': "ulp x * 2 ^ 52 = 2 powr (of_int (expo x))"
proof -
  have "(2::real) ^ 52 = 2 powr 52" by simp
  then have "ulp x * 2 ^ 52 = 2 powr (of_int (expo x) - 52) * 2 powr 52"
    by (simp only: ulp_def)
  also have "\<dots> = 2 powr (of_int (expo x) - 52 + 52)"
    by (simp only: powr_add)
  also have "of_int (expo x) - 52 + 52 = (of_int (expo x) :: real)"
    by arith
  finally show ?thesis .
qed

lemma nearest_pos: "0 < x \<Longrightarrow> nearest x = of_int (rne (x / ulp x)) * ulp x"
  by (simp add: nearest_def)

lemma nearest_zero [simp]: "nearest 0 = 0"
  by (simp add: nearest_def)

lemma nearest_minus: "nearest (- x) = - nearest x"
  by (simp add: nearest_def sgn_minus)

lemma nearest_nonneg: "0 \<le> x \<Longrightarrow> 0 \<le> nearest x"
proof (cases "x = 0")
  case True
  then show ?thesis by simp
next
  case False
  assume "0 \<le> x"
  with False have x: "0 < x" by simp
  then have "0 \<le> x / ulp x" by (intro divide_nonneg_nonneg) simp_all
  then have "0 \<le> rne (x / ulp x)" by (rule rne_nonneg)
  then have "0 \<le> of_int (rne (x / ulp x)) * ulp x" by simp
  with x show ?thesis by (simp add: nearest_pos)
qed

text \<open>A positive number rounds into its own binade, ends included.\<close>

lemma nearest_upper: "0 < x \<Longrightarrow> nearest x \<le> 2 powr (of_int (expo x) + 1)"
proof -
  assume x: "0 < x"
  have "x < ulp x * 2 ^ 53"
    using expo_upper [OF x] by (simp only: ulp_times)
  then have "x / ulp x < 2 ^ 53"
    by (simp add: pos_divide_less_eq mult.commute)
  then have "x / ulp x \<le> 9007199254740992" by simp
  from rne_mono [OF this] have "rne (x / ulp x) \<le> 9007199254740992" by simp
  then have "real_of_int (rne (x / ulp x)) \<le> 2 ^ 53" by simp
  then have "of_int (rne (x / ulp x)) * ulp x \<le> 2 ^ 53 * ulp x"
    by (intro mult_right_mono) (simp_all add: less_imp_le)
  also have "\<dots> = 2 powr (of_int (expo x) + 1)"
    by (simp only: ulp_times [symmetric] mult.commute)
  finally show ?thesis using x by (simp only: nearest_pos)
qed

lemma nearest_lower:
  "0 < x \<Longrightarrow> - 1022 < expo x \<Longrightarrow> 2 powr (of_int (expo x)) \<le> nearest x"
proof -
  assume x: "0 < x" and e: "- 1022 < expo x"
  have "ulp x * 2 ^ 52 \<le> x"
    using expo_lower [OF x e] by (simp only: ulp_times')
  then have "2 ^ 52 \<le> x / ulp x"
    by (simp add: pos_le_divide_eq mult.commute)
  then have "4503599627370496 \<le> x / ulp x" by simp
  from rne_mono [OF this] have "4503599627370496 \<le> rne (x / ulp x)" by simp
  then have "2 ^ 52 \<le> real_of_int (rne (x / ulp x))" by simp
  then have "2 ^ 52 * ulp x \<le> of_int (rne (x / ulp x)) * ulp x"
    by (intro mult_right_mono) (simp_all add: less_imp_le)
  moreover have "2 ^ 52 * ulp x = 2 powr (of_int (expo x))"
    by (simp only: ulp_times' [symmetric] mult.commute)
  ultimately have "2 powr (of_int (expo x)) \<le> of_int (rne (x / ulp x)) * ulp x"
    by (simp only:)
  then show ?thesis using x by (simp only: nearest_pos)
qed

lemma nearest_mono_pos:
  assumes x: "0 < x" and le: "x \<le> y"
  shows "nearest x \<le> nearest y"
proof (cases "expo x = expo y")
  case True
  then have u: "ulp x = ulp y" by (simp add: ulp_def)
  from le have "x / ulp y \<le> y / ulp y"
    by (intro divide_right_mono) (simp_all add: less_imp_le)
  from rne_mono [OF this] have "of_int (rne (x / ulp y)) * ulp y \<le> of_int (rne (y / ulp y)) * ulp y"
    by (intro mult_right_mono) (simp_all add: less_imp_le)
  moreover from x le have "0 < y" by simp
  ultimately show ?thesis using x u by (simp add: nearest_pos)
next
  case False
  with expo_mono [OF x le] have lt: "expo x < expo y" by simp
  have "- 1022 \<le> expo x" by (simp add: expo_def)
  with lt have e: "- 1022 < expo y" by simp
  from x le have y: "0 < y" by simp
  have "nearest x \<le> 2 powr (of_int (expo x) + 1)" by (rule nearest_upper [OF x])
  also have "\<dots> \<le> 2 powr (of_int (expo y))"
    using lt by (simp add: powr_mono)
  also have "\<dots> \<le> nearest y" by (rule nearest_lower [OF y e])
  finally show ?thesis .
qed

lemma nearest_mono: "x \<le> y \<Longrightarrow> nearest x \<le> nearest y"
proof -
  assume le: "x \<le> y"
  consider "0 < x" | "y < 0" | "x \<le> 0" "0 \<le> y" by linarith
  then show ?thesis
  proof cases
    case 1
    then show ?thesis using le by (rule nearest_mono_pos)
  next
    case 2
    with le have "0 < - y" "- y \<le> - x" by simp_all
    from nearest_mono_pos [OF this] show ?thesis by (simp add: nearest_minus)
  next
    case 3
    from 3(1) have "0 \<le> nearest (- x)" by (intro nearest_nonneg) simp
    then have "nearest x \<le> 0" by (simp add: nearest_minus)
    also have "0 \<le> nearest y" using 3(2) by (rule nearest_nonneg)
    finally show ?thesis .
  qed
qed

lemma expo_eq:
  assumes lo: "2 powr (of_int e) \<le> \<bar>x\<bar>" and hi: "\<bar>x\<bar> < 2 powr (of_int e + 1)"
    and e: "- 1022 \<le> e"
  shows "expo x = e"
proof -
  have "0 < (2::real) powr (of_int e)" by simp
  with lo have x: "0 < \<bar>x\<bar>" by linarith
  from lo x have "of_int e \<le> log 2 \<bar>x\<bar>" by (simp add: le_log_iff)
  moreover from hi x have "log 2 \<bar>x\<bar> < of_int e + 1" by (simp add: log_less_iff)
  ultimately have "\<lfloor>log 2 \<bar>x\<bar>\<rfloor> = e" by linarith
  with e show ?thesis by (simp add: expo_def)
qed

text \<open>Rounding a number of magnitude in \<open>[2^n, 2^(n+1))\<close>, and one in \<open>[2^-n, 2^(1-n))\<close>.\<close>

lemma nearest_eval_up:
  assumes "2 ^ n \<le> \<bar>x\<bar>" and "\<bar>x\<bar> < 2 * 2 ^ n"
  shows "nearest x = sgn x * (of_int (rne (\<bar>x\<bar> * 2 ^ 52 / 2 ^ n)) * 2 ^ n / 2 ^ 52)"
proof -
  have p: "2 powr (of_int (int n)) = (2::real) ^ n"
    by (simp add: powr_realpow)
  have "2 powr (of_int (int n) + 1) = (2::real) * 2 ^ n"
    by (simp add: powr_add powr_realpow)
  with assms p have "expo x = int n"
    by (intro expo_eq) simp_all
  then have "ulp x = 2 powr (of_int (int n) - 52)" by (simp add: ulp_def)
  also have "\<dots> = 2 ^ n / 2 ^ 52"
    by (simp add: powr_diff powr_realpow)
  finally have u: "ulp x = 2 ^ n / 2 ^ 52" .
  show ?thesis unfolding nearest_def u by simp
qed

lemma nearest_eval_down:
  assumes "1 \<le> \<bar>x\<bar> * 2 ^ n" and "\<bar>x\<bar> * 2 ^ n < 2" and "n \<le> 1022"
  shows "nearest x = sgn x * (of_int (rne (\<bar>x\<bar> * 2 ^ 52 * 2 ^ n)) / (2 ^ 52 * 2 ^ n))"
proof -
  have p: "2 powr (of_int (- int n)) = 1 / (2::real) ^ n"
    by (simp add: powr_minus powr_realpow divide_inverse)
  have "2 powr (of_int (- int n) + 1) = 2 powr (of_int (- int n)) * (2::real) powr 1"
    by (simp only: powr_add)
  then have q: "2 powr (of_int (- int n) + 1) = 2 / (2::real) ^ n"
    unfolding p by simp
  have "2 powr (of_int (- int n)) \<le> \<bar>x\<bar>"
    using assms(1) unfolding p by (simp add: pos_divide_le_eq)
  moreover have "\<bar>x\<bar> < 2 powr (of_int (- int n) + 1)"
    using assms(2) unfolding q by (simp add: pos_less_divide_eq)
  ultimately have "expo x = - int n"
    using assms(3) by (intro expo_eq) simp_all
  then have "ulp x = 2 powr (of_int (- int n) - 52)" by (simp add: ulp_def)
  also have "\<dots> = 2 powr (of_int (- int n)) / 2 powr 52"
    by (simp only: powr_diff)
  also have "\<dots> = 1 / (2 ^ 52 * 2 ^ n)"
    unfolding p by simp
  finally have u: "ulp x = 1 / (2 ^ 52 * 2 ^ n)" .
  show ?thesis unfolding nearest_def u by (simp add: mult.assoc)
qed

text \<open>Integers below \<open>2^53\<close> are doubles.\<close>

lemma nearest_of_nat_pos:
  assumes n: "0 < n" and b: "n < 2 ^ 53"
  shows "nearest (of_nat n) = of_nat n"
proof -
  let ?x = "real n"
  from n have x: "0 < ?x" by simp
  have "1 \<le> ?x" using n by simp
  then have "0 \<le> log 2 ?x" by simp
  then have f: "0 \<le> \<lfloor>log 2 ?x\<rfloor>" by simp
  have "\<lfloor>log 2 ?x\<rfloor> \<le> expo ?x" unfolding expo_def by simp
  with f have e0: "0 \<le> expo ?x" by linarith
  then have "- 1022 < expo ?x" by simp
  from expo_lower [OF x this] have "2 powr (of_int (expo ?x)) \<le> ?x" .
  also have "?x < 2 ^ 53" using b by (metis of_nat_less_iff of_nat_numeral of_nat_power)
  also have "(2::real) ^ 53 = 2 powr 53" by simp
  finally have "2 powr (of_int (expo ?x)) < (2::real) powr 53" .
  then have "of_int (expo ?x) < (53::real)" by (simp only: powr_less_cancel_iff)
  then have e1: "expo ?x \<le> 52" by simp
  define m where "m = nat (52 - expo ?x)"
  have "real_of_int (expo ?x) - 52 = - real m"
    using e1 by (simp add: m_def)
  then have u: "ulp ?x = 1 / 2 ^ m"
    by (simp add: ulp_def powr_minus powr_realpow divide_inverse)
  have "?x / ulp ?x = of_int (int n * 2 ^ m)" by (simp add: u)
  then have "rne (?x / ulp ?x) = int n * 2 ^ m" by (simp only: rne_of_int)
  then show ?thesis using x by (simp add: nearest_pos u)
qed

lemma nearest_of_int: "\<bar>k\<bar> < 2 ^ 53 \<Longrightarrow> nearest (of_int k) = of_int k"
proof -
  assume b: "\<bar>k\<bar> < 2 ^ 53"
  consider "k = 0" | "0 < k" | "k < 0" by linarith
  then show ?thesis
  proof cases
    case 1
    then show ?thesis by simp
  next
    case 2
    with b have "0 < nat k" "nat k < 2 ^ 53" by (simp_all add: nat_less_iff)
    from nearest_of_nat_pos [OF this] 2 show ?thesis by simp
  next
    case 3
    with b have "0 < nat (- k)" "nat (- k) < 2 ^ 53" by (simp_all add: nat_less_iff)
    from nearest_of_nat_pos [OF this] 3 have "nearest (of_int (- k)) = of_int (- k)" by simp
    then show ?thesis by (simp add: nearest_minus)
  qed
qed

lemma nearest_numeral [simp]:
  "numeral n < (2 ^ 53 :: int) \<Longrightarrow> nearest (numeral n) = numeral n"
  "numeral n < (2 ^ 53 :: int) \<Longrightarrow> nearest (- numeral n) = - numeral n"
  using nearest_of_int [of "numeral n"] nearest_of_int [of "- numeral n"] by simp_all

lemma nearest_one [simp]: "nearest 1 = 1" "nearest (- 1) = - 1"
  using nearest_of_int [of 1] nearest_of_int [of "- 1"] by simp_all

subsection \<open>Doubles round to themselves\<close>

lemma nearest_scaled:
  assumes m: "0 < m" "m \<le> 2 ^ 53" and j: "- 1074 \<le> j"
  shows "nearest (of_int m * 2 powr of_int j) = of_int m * 2 powr of_int j"
proof -
  let ?y = "real_of_int m * 2 powr of_int j"
  from m have y: "0 < ?y" by simp
  show ?thesis
  proof (cases "m = 2 ^ 53")
    case True
    have "(2::real) ^ 53 = 2 powr 53" by simp
    then have "?y = 2 powr 53 * 2 powr of_int j" using True by simp
    also have "\<dots> = 2 powr (of_int (j + 53))" by (simp add: powr_add)
    finally have yy: "?y = 2 powr (of_int (j + 53))" .
    let ?z = "(2::real) powr (of_int (j + 53))"
    have "expo ?z = j + 53"
      using j by (intro expo_eq) (simp_all add: powr_less_mono)
    then have "ulp ?z = 2 powr (of_int (j + 53) - 52)" by (simp add: ulp_def)
    then have u: "ulp ?z = 2 powr (of_int j + 1)" by (simp add: algebra_simps)
    have "?z / ulp ?z = 2 powr (of_int (j + 53) - (of_int j + 1))"
      unfolding u by (simp only: powr_diff)
    also have "\<dots> = 2 powr 52" by simp
    also have "\<dots> = of_int (2 ^ 52)" by simp
    finally have "rne (?z / ulp ?z) = 2 ^ 52" by (simp only: rne_of_int)
    then have "nearest ?z = 2 ^ 52 * ulp ?z" by (simp add: nearest_pos)
    also have "\<dots> = 2 powr 52 * 2 powr (of_int j + 1)" unfolding u by simp
    also have "\<dots> = 2 powr (52 + (of_int j + 1))" by (simp only: powr_add)
    also have "52 + (of_int j + 1) = (of_int (j + 53) :: real)" by simp
    finally show ?thesis by (simp only: yy)
  next
    case False
    with m have lt: "m < 2 ^ 53" by simp
    have e1: "expo ?y \<le> j + 52"
    proof (cases "- 1022 < expo ?y")
      case True
      from expo_lower [OF y True] have "2 powr (of_int (expo ?y)) \<le> ?y" .
      also have "?y < 2 ^ 53 * 2 powr of_int j"
        using lt by (intro mult_strict_right_mono) simp_all
      also have "(2::real) ^ 53 * 2 powr of_int j = 2 powr (of_int (j + 53))"
      proof -
        have "(2::real) ^ 53 = 2 powr 53" by simp
        then have "(2::real) ^ 53 * 2 powr of_int j = 2 powr 53 * 2 powr of_int j" by simp
        also have "\<dots> = 2 powr (of_int (j + 53))" by (simp add: powr_add)
        finally show ?thesis .
      qed
      finally have "2 powr (of_int (expo ?y)) < (2::real) powr (of_int (j + 53))" .
      then have "real_of_int (expo ?y) < of_int (j + 53)" by (simp only: powr_less_cancel_iff)
      then show ?thesis by linarith
    next
      case False
      moreover have "- 1022 \<le> expo ?y" by (simp add: expo_def)
      ultimately have "expo ?y = - 1022" by simp
      with j show ?thesis by simp
    qed
    define k where "k = nat (j + 52 - expo ?y)"
    have "of_int j - (real_of_int (expo ?y) - 52) = real k"
      using e1 by (simp add: k_def)
    then have "2 powr (of_int j) / ulp ?y = 2 powr (real k)"
      unfolding ulp_def by (simp only: powr_diff [symmetric])
    then have d: "2 powr (of_int j) / ulp ?y = 2 ^ k"
      by (simp add: powr_realpow)
    have "?y / ulp ?y = of_int m * (2 powr (of_int j) / ulp ?y)" by simp
    also have "\<dots> = of_int (m * 2 ^ k)" unfolding d by simp
    finally have "rne (?y / ulp ?y) = m * 2 ^ k" by (simp only: rne_of_int)
    then have "nearest ?y = of_int m * (2 ^ k * ulp ?y)" using y by (simp add: nearest_pos)
    also have "2 ^ k * ulp ?y = 2 powr (of_int j)"
    proof -
      have "ulp ?y \<noteq> 0" using ulp_pos [of ?y] by linarith
      moreover from d have "2 powr (of_int j) / ulp ?y * ulp ?y = 2 ^ k * ulp ?y"
        by (simp only:)
      ultimately show ?thesis by simp
    qed
    finally show ?thesis .
  qed
qed

lemma nearest_idem [simp]: "nearest (nearest x) = nearest x"
proof -
  have pos: "nearest (nearest x) = nearest x" if x: "0 < x" for x
  proof -
    let ?m = "rne (x / ulp x)"
    have n: "nearest x = of_int ?m * 2 powr (of_int (expo x - 52))"
      using x by (simp add: nearest_pos ulp_def)
    have "0 \<le> x / ulp x" using x by (intro divide_nonneg_nonneg) simp_all
    then have m0: "0 \<le> ?m" by (rule rne_nonneg)
    have "x < ulp x * 2 ^ 53" using expo_upper [OF x] by (simp only: ulp_times)
    then have "x / ulp x < 2 ^ 53" by (simp add: pos_divide_less_eq mult.commute)
    then have "x / ulp x \<le> 9007199254740992" by simp
    from rne_mono [OF this] have m1: "?m \<le> 2 ^ 53" by simp
    have j: "- 1074 \<le> expo x - 52" by (simp add: expo_def)
    show ?thesis
    proof (cases "?m = 0")
      case True
      then show ?thesis using n by simp
    next
      case False
      with m0 have "0 < ?m" by simp
      from nearest_scaled [OF this m1 j] show ?thesis by (simp only: n)
    qed
  qed
  consider "x = 0" | "0 < x" | "x < 0" by linarith
  then show ?thesis
  proof cases
    case 1
    then show ?thesis by simp
  next
    case 2
    then show ?thesis by (rule pos)
  next
    case 3
    then have "0 < - x" by simp
    from pos [OF this] show ?thesis by (simp add: nearest_minus)
  qed
qed

subsection \<open>Rounding into the doubles\<close>

lemma fl_not_NaN [simp]: "fl x \<noteq> NaN" "NaN \<noteq> fl x"
  by (simp_all add: fl_def Let_def)


lemma fl_small: "\<bar>nearest x\<bar> < 2 ^ 1024 \<Longrightarrow> fl x = Fin (nearest x)"
  by (auto simp: fl_def Let_def)

lemma fl_mono: "x \<le> y \<Longrightarrow> jle (fl x) (fl y)"
  using nearest_mono [of x y] by (auto simp: fl_def Let_def)

lemma fl_numeral [simp]:
  "numeral n < (2 ^ 53 :: int) \<Longrightarrow> fl (numeral n) = Fin (numeral n)"
proof -
  assume a: "numeral n < (2 ^ 53 :: int)"
  have "(2 ^ 53 :: int) < 2 ^ 1024" by simp
  with a have "(numeral n :: int) < 2 ^ 1024" by (rule less_trans)
  then have "real_of_int (numeral n) < real_of_int (2 ^ 1024)"
    by (simp only: of_int_less_iff)
  then have b: "\<bar>numeral n :: real\<bar> < 2 ^ 1024" by simp
  from a have "nearest (numeral n) = numeral n" by (rule nearest_numeral)
  with b show ?thesis by (simp only: fl_small)
qed

lemma fl_zero [simp]: "fl 0 = Fin 0"
  by (simp add: fl_small)

lemma fl_one [simp]: "fl 1 = Fin 1" "fl (- 1) = Fin (- 1)"
  by (simp_all add: fl_small)

subsection \<open>Order and arithmetic of doubles\<close>

lemma jle_refl: "a \<noteq> NaN \<Longrightarrow> jle a a"
  by (cases a) simp_all

lemma jle_trans: "jle a b \<Longrightarrow> jle b c \<Longrightarrow> jle a c"
  by (cases a; cases b; cases c) simp_all

lemma jle_not_NaN: "jle a b \<Longrightarrow> a \<noteq> NaN \<and> b \<noteq> NaN"
  by (cases a; cases b) simp_all

lemma jlt_iff_not_jle: "a \<noteq> NaN \<Longrightarrow> b \<noteq> NaN \<Longrightarrow> jlt a b \<longleftrightarrow> \<not> jle b a"
  by (cases a; cases b) auto

lemma jmul_not_NaN: "a \<noteq> NaN \<Longrightarrow> c \<noteq> 0 \<Longrightarrow> jmul a (Fin c) \<noteq> NaN"
  by (cases a) (simp_all add: signed_def)

lemma jsub_not_NaN: "y \<noteq> NaN \<Longrightarrow> jsub (Fin b) y \<noteq> NaN"
  by (cases y) (simp_all add: jsub_def)

lemma jle_PosInf [simp]: "jle a PosInf \<longleftrightarrow> a \<noteq> NaN"
  by (cases a) simp_all

lemma jle_NegInf [simp]: "jle NegInf b \<longleftrightarrow> b \<noteq> NaN"
  by (cases b) simp_all

lemma jmul_mono:
  assumes le: "jle a b" and c: "0 < c"
  shows "jle (jmul a (Fin c)) (jmul b (Fin c))"
proof (cases a)
  case a: (Fin x)
  show ?thesis
  proof (cases b)
    case (Fin y)
    with a le c show ?thesis by (simp add: fl_mono)
  next
    case PosInf
    with a c show ?thesis by (simp add: signed_def)
  next
    case NegInf
    with a le show ?thesis by simp
  next
    case NaN
    with a le show ?thesis by simp
  qed
next
  case PosInf
  with le have "b = PosInf" by (cases b) simp_all
  with PosInf c show ?thesis by (simp add: signed_def)
next
  case NegInf
  with le have "b \<noteq> NaN" by simp
  then have "jmul b (Fin c) \<noteq> NaN" using c by (intro jmul_not_NaN) simp_all
  with NegInf c show ?thesis by (simp add: signed_def)
next
  case NaN
  with le show ?thesis by simp
qed

lemma jsub_anti: "jle a b \<Longrightarrow> jle (jsub (Fin c) b) (jsub (Fin c) a)"
proof (cases a; cases b)
  fix x y assume "a = Fin x" "b = Fin y" "jle a b"
  then show ?thesis by (simp add: jsub_def fl_mono)
qed (simp_all add: jsub_def)

lemma jmax_mono: "m \<noteq> NaN \<Longrightarrow> jle x y \<Longrightarrow> jle (jmax m x) (jmax m y)"
  by (cases m; cases x; cases y) (auto simp: jmax_def)

lemma jle_jmax: "m \<noteq> NaN \<Longrightarrow> x \<noteq> NaN \<Longrightarrow> jle m (jmax m x)"
  by (cases m; cases x) (auto simp: jmax_def)

subsection \<open>Evaluating a rounding\<close>

lemma fl_eval_up:
  assumes "2 ^ n \<le> \<bar>x\<bar>" and "\<bar>x\<bar> < 2 * 2 ^ n" and n: "n \<le> 1022"
  shows "fl x = Fin (sgn x * (of_int (rne (\<bar>x\<bar> * 2 ^ 52 / 2 ^ n)) * 2 ^ n / 2 ^ 52))"
proof -
  have a: "0 < \<bar>x\<bar>" using assms(1) by (smt (verit) zero_less_power)
  have "expo \<bar>x\<bar> = int n"
    using assms(1,2) by (intro expo_eq) (simp_all add: powr_add powr_realpow)
  with nearest_upper [OF a] have "nearest \<bar>x\<bar> \<le> 2 powr (of_int (int n) + 1)" by simp
  also have "\<dots> = 2 * 2 ^ n" by (simp add: powr_add powr_realpow)
  also have "\<dots> = 2 ^ (Suc n)" by simp
  also have "\<dots> \<le> (2::real) ^ 1023" using n by (intro power_increasing) simp_all
  also have "\<dots> < 2 ^ 1024" by simp
  finally have b: "nearest \<bar>x\<bar> < 2 ^ 1024" .
  have "\<bar>nearest x\<bar> = nearest \<bar>x\<bar>"
  proof (cases "0 \<le> x")
    case True
    then have "0 \<le> nearest x" by (rule nearest_nonneg)
    with True show ?thesis by simp
  next
    case False
    then have "0 \<le> nearest (- x)" by (intro nearest_nonneg) simp
    with False show ?thesis by (simp add: nearest_minus)
  qed
  with b have "\<bar>nearest x\<bar> < 2 ^ 1024" by simp
  then have "fl x = Fin (nearest x)" by (rule fl_small)
  then show ?thesis by (simp only: nearest_eval_up [OF assms(1,2)])
qed

lemma fl_eval_down:
  assumes "1 \<le> \<bar>x\<bar> * 2 ^ n" and "\<bar>x\<bar> * 2 ^ n < 2" and n: "n \<le> 1022"
  shows "fl x = Fin (sgn x * (of_int (rne (\<bar>x\<bar> * 2 ^ 52 * 2 ^ n)) / (2 ^ 52 * 2 ^ n)))"
proof -
  have "\<bar>x\<bar> < 2 / 2 ^ n" using assms(2) by (simp add: pos_less_divide_eq)
  also have "\<dots> \<le> 2" by (simp add: pos_divide_le_eq)
  finally have "\<bar>x\<bar> \<le> 2" by simp
  then have "- 2 \<le> x" "x \<le> 2" by linarith+
  then have "nearest (- 2) \<le> nearest x" "nearest x \<le> nearest 2" by (simp_all only: nearest_mono)
  then have "\<bar>nearest x\<bar> \<le> 2" by simp
  also have "(2::real) < 2 ^ 1024" by simp
  finally have "fl x = Fin (nearest x)" by (rule fl_small)
  then show ?thesis by (simp only: nearest_eval_down [OF assms])
qed

lemma lit_055: "lit 0.55 = Fin (2476979795053773 / 4503599627370496)"
  using fl_eval_down [of "55 / 100" 1] by (simp add: lit_def rne_def)

lemma lit_06: "lit 0.6 = Fin (5404319552844595 / 9007199254740992)"
  using fl_eval_down [of "6 / 10" 1] by (simp add: lit_def rne_def)

lemma lit_35: "lit 3.5 = Fin (7 / 2)"
  using fl_eval_up [of 1 "7 / 2"] by (simp add: lit_def rne_def)

lemma lit_38: "lit 3.8 = Fin (4278419646001971 / 1125899906842624)"
  using fl_eval_up [of 1 "38 / 10"] by (simp add: lit_def rne_def)

lemma lit_numeral [simp]: "numeral n < (2 ^ 53 :: int) \<Longrightarrow> lit (numeral n) = Fin (numeral n)"
  by (simp add: lit_def)

lemma lit_zero [simp]: "lit 0 = Fin 0"
  by (simp add: lit_def)

lemma floors_ast:
  "jmul (Fin 520) (lit 0.55) = Fin 286"
  "jmul (Fin 700) (lit 0.55) = Fin (385 + 1 / 2 ^ 44)"
  "jmul (Fin 900) (lit 0.55) = Fin (495 + 1 / 2 ^ 44)"
  unfolding lit_055
  using fl_eval_up [of 8 "520 * (2476979795053773 / 4503599627370496)"]
    fl_eval_up [of 8 "700 * (2476979795053773 / 4503599627370496)"]
    fl_eval_up [of 8 "900 * (2476979795053773 / 4503599627370496)"]
  by (simp_all add: rne_def)

lemma floors_ali:
  "jmul (Fin 800) (lit 0.6) = Fin 480"
  "jmul (Fin 1100) (lit 0.6) = Fin 660"
  "jmul (Fin 1400) (lit 0.6) = Fin 840"
  unfolding lit_06
  using fl_eval_up [of 8 "800 * (5404319552844595 / 9007199254740992)"]
    fl_eval_up [of 9 "1100 * (5404319552844595 / 9007199254740992)"]
    fl_eval_up [of 9 "1400 * (5404319552844595 / 9007199254740992)"]
  by (simp_all add: rne_def)

lemma baseD [simp]:
  "baseAstD Hard = Fin 520" "baseAstD Medium = Fin 700" "baseAstD Easy = Fin 900"
  "baseAliD Hard = Fin 800" "baseAliD Medium = Fin 1100" "baseAliD Easy = Fin 1400"
  by (simp_all add: baseAstD_def baseAliD_def)

lemma floorD_not_NaN:
  "jmul (baseAstD d) (lit 0.55) \<noteq> NaN" "jmul (baseAliD d) (lit 0.6) \<noteq> NaN"
proof -
  show "jmul (baseAstD d) (lit 0.55) \<noteq> NaN"
    by (cases d) (simp_all only: baseD floors_ast double.distinct not_False_eq_True)
  show "jmul (baseAliD d) (lit 0.6) \<noteq> NaN"
    by (cases d) (simp_all only: baseD floors_ali double.distinct not_False_eq_True)
qed

lemma lit_0033: "lit 0.033 = Fin (1188950301625811 / 36028797018963968)"
  using fl_eval_down [of "33 / 1000" 5] by (simp add: lit_def rne_def)

lemma frame_ms: "jmul (lit 0.033) (lit 1000) = Fin 33"
  unfolding lit_0033
  using fl_eval_up [of 5 "1188950301625811 / 36028797018963968 * 1000"]
  by (simp add: rne_def)

lemma score_steps:
  "jmul (Fin 100) (lit 3.5) = Fin 350" "jmul (Fin 200) (lit 3.5) = Fin 700"
  "jmul (Fin 100) (lit 3.8) = Fin 380" "jmul (Fin 200) (lit 3.8) = Fin 760"
  unfolding lit_35 lit_38
  using fl_eval_up [of 8 "100 * (4278419646001971 / 1125899906842624)"]
    fl_eval_up [of 9 "200 * (4278419646001971 / 1125899906842624)"]
  by (simp_all add: rne_def)

subsection \<open>The collision threshold\<close>

lemma fl_neg_numeral [simp]:
  "numeral n < (2 ^ 53 :: int) \<Longrightarrow> fl (- numeral n) = Fin (- numeral n)"
proof -
  assume a: "numeral n < (2 ^ 53 :: int)"
  have "(2 ^ 53 :: int) < 2 ^ 1024" by simp
  with a have "(numeral n :: int) < 2 ^ 1024" by (rule less_trans)
  then have "real_of_int (numeral n) < real_of_int (2 ^ 1024)"
    by (simp only: of_int_less_iff)
  then have b: "\<bar>- numeral n :: real\<bar> < 2 ^ 1024" by simp
  from a have "nearest (- numeral n) = - numeral n" by (rule nearest_numeral)
  with b show ?thesis by (simp only: fl_small)
qed



lemma lit_CLOUD_RADIUS: "lit CLOUD_RADIUS = Fin 20"
  by (simp add: CLOUD_RADIUS_def)





lemma advanceD_radius [simp]: "dradius (advanceD sn dt ob) = dradius ob"
  by (simp add: advanceD_def Let_def)

subsection \<open>An asteroid on the row of the player\<close>









subsection \<open>The thresholds of Easy at the scores 100 and 200\<close>

lemma intervals_Easy: "astIntervalD Easy (Fin 100) = Fin 550"
      "astIntervalD Easy (Fin 200) = Fin (495 + 1 / 2 ^ 44)"
      "aliIntervalD Easy (Fin 100) = Fin 1020"
      "aliIntervalD Easy (Fin 200) = Fin 840"
    unfolding astIntervalD_def aliIntervalD_def baseD floors_ast floors_ali score_steps
    by (simp_all add: jsub_def jmax_def)

lemma timers_Easy: "spawnTimersD (lit 0.033) Easy (Fin 200) \<lparr>asteroidMsD = Fin 462, alienMsD = Fin 462\<rparr>
       = \<lparr>asteroidMsD = Fin 495, alienMsD = Fin 495\<rparr>"
      "spawnTimersD (lit 0.033) Easy (Fin 200) \<lparr>asteroidMsD = Fin 495, alienMsD = Fin 495\<rparr>
       = \<lparr>asteroidMsD = Fin 0, alienMsD = Fin 528\<rparr>"
    unfolding spawnTimersD_def intervals_Easy frame_ms by (simp_all add: jge_def Let_def)

subsection \<open>The step of the player stays finite\<close>

lemma lit_consts:
  "lit PLAYER_SPEED = Fin 260"
  "lit WIDTH = Fin 800" "lit HEIGHT = Fin 500"
  by (simp_all add: CLOUD_RADIUS_def PLAYER_SPEED_def WIDTH_def HEIGHT_def)

lemma clamp_consts: "jsub (Fin 800) (Fin 20) = Fin 780" "jsub (Fin 500) (Fin 20) = Fin 480"
  by (simp_all add: jsub_def)


lemma boundedBy_mono: "boundedBy A v \<Longrightarrow> A \<le> B \<Longrightarrow> boundedBy B v"
  by (cases v) simp_all













subsection \<open>The clamp\<close>

lemma clamp_bounds:
  assumes "lo \<le> hi" and "v \<noteq> NaN"
  shows "jle (Fin lo) (jmax (Fin lo) (jmin (Fin hi) v)) \<and> jle (jmax (Fin lo) (jmin (Fin hi) v)) (Fin hi)"
  using assms by (cases v) (simp_all add: jmax_def jmin_def)

lemma clamp_NaN: "jmax (Fin lo) (jmin (Fin hi) v) = NaN \<longleftrightarrow> v = NaN"
  by (cases v) (simp_all add: jmax_def jmin_def)




lemma movePlayerD_shape:
  "\<exists>vx vy. movePlayerD hyp dt ks ptr p =
     \<lparr>dpx = jmax (Fin 20) (jmin (Fin 780) vx), dpy = jmax (Fin 20) (jmin (Fin 480) vy)\<rparr>"
  unfolding movePlayerD_def Let_def lit_consts lit_CLOUD_RADIUS clamp_consts
  by (rule exI, rule exI, rule refl)

lemma inBoundsD_clamp:
  "inBoundsD \<lparr>dpx = jmax (Fin 20) (jmin (Fin 780) vx), dpy = jmax (Fin 20) (jmin (Fin 480) vy)\<rparr>
   \<longleftrightarrow> vx \<noteq> NaN \<and> vy \<noteq> NaN"
  by (cases vx; cases vy) (simp_all add: inBoundsD_def lit_consts lit_CLOUD_RADIUS clamp_consts jmax_def jmin_def)

text \<open>Whatever its arguments, the clamp leaves the bounds only with a NaN.\<close>

lemma movePlayerD_inBounds_iff:
  "inBoundsD (movePlayerD hyp dt ks ptr p) \<longleftrightarrow>
     dpx (movePlayerD hyp dt ks ptr p) \<noteq> NaN \<and> dpy (movePlayerD hyp dt ks ptr p) \<noteq> NaN"
proof -
  from movePlayerD_shape [of hyp dt ks ptr p] obtain vx vy where
    e: "movePlayerD hyp dt ks ptr p =
      \<lparr>dpx = jmax (Fin 20) (jmin (Fin 780) vx), dpy = jmax (Fin 20) (jmin (Fin 480) vy)\<rparr>"
    by blast
  show ?thesis unfolding e inBoundsD_clamp by (simp add: clamp_NaN)
qed

section \<open>The claims\<close>

text \<open>
  C1 (as amended). In every tick the obstacles are visited in one pass from the newest
  (the end of the array) to the oldest; each is advanced, then checked for scoring, for
  culling and for collision, in this order, all three on its position after the advance.
  The pass stops at the first collision.
\<close>

theorem c1_newest_first:
  "update dt rnd s = newestFirstPass dt (spawnPhase dt rnd (movePlayer dt s))
   \<and> sweep dt p (ob # rest) sc =
       (if culled (advance dt ob) then sweep dt p rest (sc + gain dt p ob)
        else if collides p (advance dt ob) then (True, processed dt p ob # rest, sc + gain dt p ob)
        else (case sweep dt p rest (sc + gain dt p ob) of
                (c, rest', sc') \<Rightarrow> (c, processed dt p ob # rest', sc')))
   \<and> processed dt p ob = (advance dt ob)\<lparr>scored := scored ob \<or> passes p (advance dt ob)\<rparr>"
proof -
  have a: "update dt rnd s = newestFirstPass dt (spawnPhase dt rnd (movePlayer dt s))"
    by (rule update_newestFirst)
  have b: "sweep dt p (ob # rest) sc =
       (if culled (advance dt ob) then sweep dt p rest (sc + gain dt p ob)
        else if collides p (advance dt ob) then (True, processed dt p ob # rest, sc + gain dt p ob)
        else (case sweep dt p rest (sc + gain dt p ob) of
                (c, rest', sc') \<Rightarrow> (c, processed dt p ob # rest', sc')))"
    by (simp add: Let_def)
  have c: "processed dt p ob = (advance dt ob)\<lparr>scored := scored ob \<or> passes p (advance dt ob)\<rparr>"
    by (cases "scored ob") (simp_all add: processed_def Let_def passes_def)
  from a b c show ?thesis by blast
qed

theorem c1_newest_first_witness:
  "update (1/32) noDraws twoRocks =
     newestFirstPass (1/32) (spawnPhase (1/32) noDraws (movePlayer (1/32) twoRocks))
   \<and> obstacles (update (1/32) noDraws twoRocks) = [rock 130 250, rock (535 / 4) 250]
   \<and> gameOver (update (1/32) noDraws twoRocks)"
proof -
  have "obstacles (update (1/32) noDraws twoRocks) = [rock 130 250, rock (535 / 4) 250]
      \<and> gameOver (update (1/32) noDraws twoRocks)"
    unfolding twoRocks_def update_round0 by (simp add: pass_defs ex_defs)
  with c1_newest_first [of "1/32" noDraws twoRocks] show ?thesis by blast
qed

text \<open>
  Two asteroids overlap the player. The code stops at the newer one and never touches
  the older; a pass in spawn order would stop at the older one.
\<close>

theorem c1_spawn_order_counterexample:
  "obstacles (update (1/32) noDraws twoRocks) = [rock 130 250, rock (535 / 4) 250]
   \<and> obstacles (spawnOrderPass (1/32) (spawnPhase (1/32) noDraws (movePlayer (1/32) twoRocks)))
       = [rock (495 / 4) 250, rock 140 250]
   \<and> update (1/32) noDraws twoRocks
       \<noteq> spawnOrderPass (1/32) (spawnPhase (1/32) noDraws (movePlayer (1/32) twoRocks))"
proof -
  have a: "obstacles (update (1/32) noDraws twoRocks) = [rock 130 250, rock (535 / 4) 250]"
    unfolding twoRocks_def update_round0 by (simp add: pass_defs ex_defs)
  have b: "obstacles (spawnOrderPass (1/32)
        (spawnPhase (1/32) noDraws (movePlayer (1/32) twoRocks)))
       = [rock (495 / 4) 250, rock 140 250]"
    unfolding twoRocks_def move_round0 spawn_round0
    by (simp add: spawnOrderPass_def pass_defs ex_defs)
  have "[rock 130 250, rock (535 / 4) 250] \<noteq> [rock (495 / 4) 250, rock 140 250]"
    by (simp add: rock_def)
  with a b show ?thesis by metis
qed









text \<open>
  C5. At double precision the two spawn thresholds are
  \<open>Math.max(base * 0.55, base - score * 3.5)\<close> for asteroids and
  \<open>Math.max(base * 0.6, base - score * 3.8)\<close> for aliens, with the bases 520, 700, 900 and
  800, 1100, 1400 for Hard, Medium, Easy. The floors \<open>base * 0.55\<close> are the doubles 286,
  \<open>385 + 2^-44\<close> and \<open>495 + 2^-44\<close>, the floors \<open>base * 0.6\<close> are 480, 660 and 840. For every
  score that is a number, neither threshold is below its floor; a larger score never gives
  a larger threshold; and every tick compares its two timers with the thresholds of the
  current score and difficulty, a timer that has reached its threshold being reset to 0.
\<close>

theorem c5_thresholds:
  "astIntervalD d sc =
     jmax (jmul (baseAstD d) (lit 0.55)) (jsub (baseAstD d) (jmul sc (lit 3.5)))
   \<and> aliIntervalD d sc =
     jmax (jmul (baseAliD d) (lit 0.6)) (jsub (baseAliD d) (jmul sc (lit 3.8)))
   \<and> baseAstD Hard = Fin 520 \<and> baseAstD Medium = Fin 700 \<and> baseAstD Easy = Fin 900
   \<and> baseAliD Hard = Fin 800 \<and> baseAliD Medium = Fin 1100 \<and> baseAliD Easy = Fin 1400
   \<and> jmul (baseAstD Hard) (lit 0.55) = Fin 286
   \<and> jmul (baseAstD Medium) (lit 0.55) = Fin (385 + 1 / 2 ^ 44)
   \<and> jmul (baseAstD Easy) (lit 0.55) = Fin (495 + 1 / 2 ^ 44)
   \<and> jmul (baseAliD Hard) (lit 0.6) = Fin 480
   \<and> jmul (baseAliD Medium) (lit 0.6) = Fin 660
   \<and> jmul (baseAliD Easy) (lit 0.6) = Fin 840
   \<and> (sc \<noteq> NaN \<longrightarrow>
         jle (jmul (baseAstD d) (lit 0.55)) (astIntervalD d sc)
       \<and> jle (jmul (baseAliD d) (lit 0.6)) (aliIntervalD d sc))
   \<and> (jle sc sc' \<longrightarrow>
         jle (astIntervalD d sc') (astIntervalD d sc)
       \<and> jle (aliIntervalD d sc') (aliIntervalD d sc))
   \<and> asteroidMsD (spawnTimersD dt d sc t) =
       (if jge (jadd (asteroidMsD t) (jmul dt (lit 1000))) (astIntervalD d sc)
        then Fin 0 else jadd (asteroidMsD t) (jmul dt (lit 1000)))
   \<and> alienMsD (spawnTimersD dt d sc t) =
       (if jge (jadd (alienMsD t) (jmul dt (lit 1000))) (aliIntervalD d sc)
        then Fin 0 else jadd (alienMsD t) (jmul dt (lit 1000)))"
proof -
  obtain b where b: "baseAstD d = Fin b" by (cases d) simp_all
  obtain b' where b': "baseAliD d = Fin b'" by (cases d) simp_all
  have fl: "sc \<noteq> NaN \<longrightarrow>
         jle (jmul (baseAstD d) (lit 0.55)) (astIntervalD d sc)
       \<and> jle (jmul (baseAliD d) (lit 0.6)) (aliIntervalD d sc)"
  proof
    assume n: "sc \<noteq> NaN"
    have "jmul sc (lit 3.5) \<noteq> NaN"
      unfolding lit_35 using n by (intro jmul_not_NaN) simp_all
    then have 1: "jsub (baseAstD d) (jmul sc (lit 3.5)) \<noteq> NaN"
      unfolding b by (rule jsub_not_NaN)
    have "jmul sc (lit 3.8) \<noteq> NaN"
      unfolding lit_38 using n by (intro jmul_not_NaN) simp_all
    then have 2: "jsub (baseAliD d) (jmul sc (lit 3.8)) \<noteq> NaN"
      unfolding b' by (rule jsub_not_NaN)
    show "jle (jmul (baseAstD d) (lit 0.55)) (astIntervalD d sc)
       \<and> jle (jmul (baseAliD d) (lit 0.6)) (aliIntervalD d sc)"
      unfolding astIntervalD_def aliIntervalD_def
      by (intro conjI jle_jmax floorD_not_NaN 1 2)
  qed
  have an: "jle sc sc' \<longrightarrow>
         jle (astIntervalD d sc') (astIntervalD d sc)
       \<and> jle (aliIntervalD d sc') (aliIntervalD d sc)"
  proof
    assume le: "jle sc sc'"
    have "jle (jmul sc (lit 3.5)) (jmul sc' (lit 3.5))"
      unfolding lit_35 using le by (intro jmul_mono) simp_all
    then have 1: "jle (jsub (baseAstD d) (jmul sc' (lit 3.5))) (jsub (baseAstD d) (jmul sc (lit 3.5)))"
      unfolding b by (rule jsub_anti)
    have "jle (jmul sc (lit 3.8)) (jmul sc' (lit 3.8))"
      unfolding lit_38 using le by (intro jmul_mono) simp_all
    then have 2: "jle (jsub (baseAliD d) (jmul sc' (lit 3.8))) (jsub (baseAliD d) (jmul sc (lit 3.8)))"
      unfolding b' by (rule jsub_anti)
    from 1 2 show "jle (astIntervalD d sc') (astIntervalD d sc)
       \<and> jle (aliIntervalD d sc') (aliIntervalD d sc)"
      unfolding astIntervalD_def aliIntervalD_def
      by (intro conjI jmax_mono floorD_not_NaN)
  qed
  have t: "asteroidMsD (spawnTimersD dt d sc t) =
       (if jge (jadd (asteroidMsD t) (jmul dt (lit 1000))) (astIntervalD d sc)
        then Fin 0 else jadd (asteroidMsD t) (jmul dt (lit 1000)))"
      "alienMsD (spawnTimersD dt d sc t) =
       (if jge (jadd (alienMsD t) (jmul dt (lit 1000))) (aliIntervalD d sc)
        then Fin 0 else jadd (alienMsD t) (jmul dt (lit 1000)))"
    unfolding spawnTimersD_def Let_def by (simp_all only: timersD.simps lit_zero)
  have f: "jmul (baseAstD Hard) (lit 0.55) = Fin 286"
     "jmul (baseAstD Medium) (lit 0.55) = Fin (385 + 1 / 2 ^ 44)"
     "jmul (baseAstD Easy) (lit 0.55) = Fin (495 + 1 / 2 ^ 44)"
     "jmul (baseAliD Hard) (lit 0.6) = Fin 480"
     "jmul (baseAliD Medium) (lit 0.6) = Fin 660"
     "jmul (baseAliD Easy) (lit 0.6) = Fin 840"
    by (simp_all only: baseD floors_ast floors_ali)
  have d: "astIntervalD d sc =
     jmax (jmul (baseAstD d) (lit 0.55)) (jsub (baseAstD d) (jmul sc (lit 3.5)))"
    "aliIntervalD d sc =
     jmax (jmul (baseAliD d) (lit 0.6)) (jsub (baseAliD d) (jmul sc (lit 3.8)))"
    by (simp_all only: astIntervalD_def aliIntervalD_def)
  show ?thesis
    by (intro conjI d baseD f fl an t)
qed

theorem c5_thresholds_witness:
  "Fin 100 \<noteq> NaN \<and> jle (Fin 100) (Fin 200)
   \<and> astIntervalD Easy (Fin 100) = Fin 550
   \<and> astIntervalD Easy (Fin 200) = Fin (495 + 1 / 2 ^ 44)
   \<and> aliIntervalD Easy (Fin 100) = Fin 1020
   \<and> aliIntervalD Easy (Fin 200) = Fin 840
   \<and> jle (astIntervalD Easy (Fin 200)) (astIntervalD Easy (Fin 100))
   \<and> jle (aliIntervalD Easy (Fin 200)) (aliIntervalD Easy (Fin 100))
   \<and> spawnTimersD (lit 0.033) Easy (Fin 200) \<lparr>asteroidMsD = Fin 462, alienMsD = Fin 462\<rparr>
       = \<lparr>asteroidMsD = Fin 495, alienMsD = Fin 495\<rparr>
   \<and> spawnTimersD (lit 0.033) Easy (Fin 200) \<lparr>asteroidMsD = Fin 495, alienMsD = Fin 495\<rparr>
       = \<lparr>asteroidMsD = Fin 0, alienMsD = Fin 528\<rparr>"
proof -
  have le: "jle (Fin 100) (Fin 200)" by simp
  have "jle (Fin 100) (Fin 200) \<longrightarrow>
         jle (astIntervalD Easy (Fin 200)) (astIntervalD Easy (Fin 100))
       \<and> jle (aliIntervalD Easy (Fin 200)) (aliIntervalD Easy (Fin 100))"
    using c5_thresholds [of Easy "Fin 100" "Fin 200"] by blast
  with le have m: "jle (astIntervalD Easy (Fin 200)) (astIntervalD Easy (Fin 100))"
      "jle (aliIntervalD Easy (Fin 200)) (aliIntervalD Easy (Fin 100))"
    by simp_all
  have n: "Fin 100 \<noteq> NaN" by simp
  show ?thesis
    by (intro conjI n le intervals_Easy m timers_Easy)
qed

text \<open>
  C6 (as amended). The iteration of an alien first adds the drift
  \<open>sin ((age * 2 + wobblePhase) * 2.2) * 40 * dt\<close> to \<open>y\<close>, computed from the age the alien
  had before this tick, and then advances the age by \<open>dt\<close>. The drift is an increment of
  \<open>y\<close>, and the phase stays as it is.
\<close>

theorem c6_alien_drift:
  assumes "i < length (obstacles s)"
    and "otype (obstacles s ! i) = Alien"
    and "\<not> culled (advance dt (obstacles s ! i))"
  shows "let ob = obstacles s ! i; ob' = obstacles (flowState (loopBody dt i s)) ! i in
     oy ob' = oy ob + sin ((life ob * 2 + wobblePhase ob) * 2.2) * 40 * dt
   \<and> life ob' = life ob + dt
   \<and> ox ob' = ox ob - speed ob * dt
   \<and> wobblePhase ob' = wobblePhase ob"
  using assms
  by (simp add: loopBody_cases Let_def processed_def advance_def)

theorem c6_alien_drift_witness:
  "0 < length (obstacles visiting)
   \<and> obstacles visiting = [saucer 400 250]
   \<and> otype (saucer 400 250) = Alien
   \<and> \<not> culled (advance (1/32) (saucer 400 250))
   \<and> obstacles (flowState (loopBody (1/32) 0 visiting)) = [(saucer (1575 / 4) 250)\<lparr>life := 1/32\<rparr>]
   \<and> obstacles (update (1/32) noDraws visiting) = [(saucer (1575 / 4) 250)\<lparr>life := 1/32\<rparr>]"
proof -
  have l: "0 < length (obstacles visiting)" by (simp add: visiting_def)
  have a: "otype (obstacles visiting ! 0) = Alien" by (simp add: visiting_def saucer_def)
  have c: "\<not> culled (advance (1/32) (obstacles visiting ! 0))"
    by (simp add: visiting_def saucer_def advance_def culled_def Let_def)
  have b: "obstacles (flowState (loopBody (1/32) 0 visiting)) =
      [(saucer (1575 / 4) 250)\<lparr>life := 1/32\<rparr>]"
    using c6_alien_drift [OF l a c]
    by (simp add: loopBody_cases visiting_def pass_defs ex_defs)
  have u: "obstacles (update (1/32) noDraws visiting) = [(saucer (1575 / 4) 250)\<lparr>life := 1/32\<rparr>]"
    unfolding visiting_def update_round0 by (simp add: pass_defs ex_defs)
  from l a c b u show ?thesis by (simp add: visiting_def)
qed

text \<open>
  A new alien (age 0, phase 0) keeps its \<open>y\<close> in its first tick; with the age advanced
  first it would move by \<open>sin (11/80) * 40 / 32\<close>.
\<close>

theorem c6_age_first_counterexample:
  "oy (hd (obstacles (update (1/32) noDraws visiting))) = 250
   \<and> oy (saucer 400 250)
       + sin (((life (saucer 400 250) + 1/32) * 2 + wobblePhase (saucer 400 250)) * 2.2) * 40 * (1/32)
     \<noteq> oy (hd (obstacles (update (1/32) noDraws visiting)))"
proof -
  have u: "obstacles (update (1/32) noDraws visiting) = [(saucer (1575 / 4) 250)\<lparr>life := 1/32\<rparr>]"
    unfolding visiting_def update_round0 by (simp add: pass_defs ex_defs)
  have "((0 + 1/32) * 2 + 0) * 2.2 = (11 / 80 :: real)" by simp
  then show ?thesis
    using sin_11_80_pos by (simp add: u saucer_def)
qed






text \<open>
  C9 (as amended). The difficulty buttons exist whenever the menu is shown, that is in
  every phase but Playing: in the Menu phase and in the GameOver phase a click sets the
  difficulty, and while Playing there is no button and the difficulty cannot change.
  \<open>restart\<close>, \<open>startGame\<close> and \<open>tick\<close> keep the difficulty.
\<close>

theorem c9_difficulty:
  "(phase s = PhasePlaying \<longrightarrow> clickDifficulty d s = s)
   \<and> (phase s \<noteq> PhasePlaying \<longrightarrow> difficulty (clickDifficulty d s) = d)
   \<and> (phase s = PhasePlaying \<longleftrightarrow> gameState s = Playing)
   \<and> difficulty (restart s) = difficulty s
   \<and> difficulty (startGame s) = difficulty s
   \<and> difficulty (tick dt rnd s) = difficulty s"
proof -
  have a: "phase s = PhasePlaying \<longleftrightarrow> gameState s = Playing"
    by (simp add: phase_def)
  have b: "phase s = PhasePlaying \<longrightarrow> clickDifficulty d s = s"
    by (simp add: a clickDifficulty_def)
  have c: "phase s \<noteq> PhasePlaying \<longrightarrow> difficulty (clickDifficulty d s) = d"
    by (cases "gameState s") (simp_all add: a clickDifficulty_def setDifficulty_def)
  have r: "difficulty (restart s) = difficulty s" "difficulty (startGame s) = difficulty s"
    by (simp_all add: restart_def startGame_def)
  have t: "difficulty (tick dt rnd s) = difficulty s"
    by (simp add: tick_def difficulty_update)
  from a b c r t show ?thesis by blast
qed

theorem c9_difficulty_witness:
  "phase round0 = PhasePlaying
   \<and> clickDifficulty Hard round0 = round0
   \<and> phase initial \<noteq> PhasePlaying
   \<and> difficulty initial = Easy
   \<and> difficulty (clickDifficulty Hard initial) = Hard
   \<and> difficulty (restart (clickDifficulty Hard initial)) = Hard"
proof -
  have a: "phase round0 = PhasePlaying"
    by (simp add: phase_def round0_def startGame_def)
  have b: "phase initial \<noteq> PhasePlaying"
    by (simp add: phase_def initial_def)
  from c9_difficulty [of round0 Hard] a have 1: "clickDifficulty Hard round0 = round0"
    by blast
  from c9_difficulty [of initial Hard] b have 2: "difficulty (clickDifficulty Hard initial) = Hard"
    by blast
  from c9_difficulty [of "clickDifficulty Hard initial"] 2
  have 3: "difficulty (restart (clickDifficulty Hard initial)) = Hard"
    by simp
  from a b 1 2 3 show ?thesis by (simp add: initial_def)
qed

text \<open>
  After the tick that ends scenario B the phase is GameOver, and a click on Hard changes
  the difficulty from Easy to Hard.
\<close>

theorem c9_game_over_counterexample:
  "phase (update (1/32) noDraws crash) = PhaseGameOver
   \<and> difficulty (update (1/32) noDraws crash) = Easy
   \<and> difficulty (clickDifficulty Hard (update (1/32) noDraws crash)) = Hard
   \<and> clickDifficulty Hard (update (1/32) noDraws crash) \<noteq> update (1/32) noDraws crash"
proof -
  have a: "phase (update (1/32) noDraws crash) = PhaseGameOver"
    by (simp add: update_crash phase_def)
  have b: "difficulty (update (1/32) noDraws crash) = Easy"
    by (simp add: update_crash) (simp add: ex_defs)
  have c: "difficulty (clickDifficulty Hard (update (1/32) noDraws crash)) = Hard"
    by (simp add: update_crash clickDifficulty_def setDifficulty_def)
  from b c have "clickDifficulty Hard (update (1/32) noDraws crash) \<noteq> update (1/32) noDraws crash"
    by (metis difficulty.distinct(3))
  with a b c show ?thesis by blast
qed



end
